theory Spec2Isabelle
  imports
    Main
    "HOL-Library.AList"
    "HOL-Library.Char_ord"
    "HOL-Library.List_Lexorder"
    "HOL-Library.Word"
begin

section \<open>The docker\_image element: configuration\<close>

text \<open>
  A shallow embedding of \<^verbatim>\<open>bst_plugins_container/elements/docker_image.py\<close>.
  Python strings are \<^typ>\<open>string\<close> (a character is a code point below 256),
  Python integers are \<^typ>\<open>int\<close>, a Python \<^verbatim>\<open>dict\<close> is an association list
  in insertion order with unique keys, and every exception is a value of \<open>error\<close>.
\<close>

subsection \<open>Values, errors and Python helpers\<close>

datatype json =
    JStr string
  | JInt int
  | JList "json list"
  | JObj "(string \<times> json) list"

text \<open>
  The messages of the \<^verbatim>\<open>ElementError\<close>s the plugin raises, each with the value that
  is formatted into it; the second argument of \<open>ElementError\<close> is the \<^verbatim>\<open>reason\<close>.
  \<open>ValueError\<close> is what \<^verbatim>\<open>dict(...)\<close> and \<^verbatim>\<open>int(...)\<close> raise by themselves.
\<close>

datatype message =
    InvalidPortOption string
  | InvalidPortNumber string
  | MissingBuildDependency
  | InvalidImageName string

datatype value_error =
    DictUpdateLength nat nat
  | InvalidIntLiteral string

datatype error =
    ElementError message string
  | ValueError value_error
  | IndexError
  | FileExistsError
  | FileNotFoundError
  | NotADirectoryError
  | IsADirectoryError
  | DirectoryExistsError

text \<open>\<^verbatim>\<open>s.split(sep, 1)\<close> for a one-character separator.\<close>

definition split1 :: "char \<Rightarrow> string \<Rightarrow> string list" where
  "split1 sep s =
     (if sep \<in> set s
      then [takeWhile (\<lambda>c. c \<noteq> sep) s, tl (dropWhile (\<lambda>c. c \<noteq> sep) s)]
      else [s])"

text \<open>
  \<^verbatim>\<open>d[k] = v\<close> on an insertion-ordered dictionary is \<^const>\<open>AList.update\<close>: an
  existing key keeps its place and takes the new value, a new key goes last.
  \<open>dict_of\<close> is a dictionary comprehension or \<^verbatim>\<open>dict(pairs)\<close> over pairs.
\<close>

definition dict_of :: "('k \<times> 'v) list \<Rightarrow> ('k \<times> 'v) list" where
  "dict_of kvs = foldl (\<lambda>d (k, v). AList.update k v d) [] kvs"

text \<open>
  \<^verbatim>\<open>dict(seq)\<close> over a sequence of lists: the element at index \<open>i\<close> must have exactly two
  items, otherwise \<^verbatim>\<open>ValueError: dictionary update sequence element #i has length n; 2 is required\<close>.
\<close>

fun dict_update_seq ::
  "nat \<Rightarrow> (string \<times> string) list \<Rightarrow> string list list \<Rightarrow> error + (string \<times> string) list" where
  "dict_update_seq i d [] = Inr d"
| "dict_update_seq i d (item # items) =
     (case item of
        [k, v] \<Rightarrow> dict_update_seq (Suc i) (AList.update k v d) items
      | _ \<Rightarrow> Inl (ValueError (DictUpdateLength i (length item))))"

definition py_dict :: "string list list \<Rightarrow> error + (string \<times> string) list" where
  "py_dict items = dict_update_seq 0 [] items"

text \<open>
  \<^verbatim>\<open>int(s)\<close> on a string, base ten: the blanks at both ends are skipped, one sign is
  allowed, then decimal digits, single underscores allowed between digits. The blanks
  are the six ASCII ones (code points 9 to 13 and 32) and, of the code points above 127,
  U+0085 and U+00A0; the separators U+001C to U+001F are not skipped.
\<close>

definition is_space :: "char \<Rightarrow> bool" where
  "is_space c = ((of_char c :: nat) \<in> {9, 10, 11, 12, 13, 32, 133, 160})"

definition is_digit :: "char \<Rightarrow> bool" where
  "is_digit c = (48 \<le> (of_char c :: nat) \<and> (of_char c :: nat) \<le> 57)"

definition digit_val :: "char \<Rightarrow> nat" where
  "digit_val c = of_char c - 48"

definition strip :: "string \<Rightarrow> string" where
  "strip s = rev (dropWhile is_space (rev (dropWhile is_space s)))"

fun parse_digits :: "nat \<Rightarrow> string \<Rightarrow> nat option" where
  "parse_digits acc [] = Some acc"
| "parse_digits acc (c # cs) =
     (if is_digit c then parse_digits (10 * acc + digit_val c) cs
      else if c = CHR ''_'' then
        (case cs of
           [] \<Rightarrow> None
         | d # ds \<Rightarrow> if is_digit d then parse_digits (10 * acc + digit_val d) ds else None)
      else None)"

definition parse_unsigned :: "string \<Rightarrow> nat option" where
  "parse_unsigned s =
     (case s of
        [] \<Rightarrow> None
      | d # ds \<Rightarrow> if is_digit d then parse_digits (digit_val d) ds else None)"

definition py_int :: "string \<Rightarrow> error + int" where
  "py_int s =
     (let t = strip s;
          r = (case t of
                 [] \<Rightarrow> None
               | c # cs \<Rightarrow>
                   if c = CHR ''-'' then map_option (\<lambda>n. - int n) (parse_unsigned cs)
                   else if c = CHR ''+'' then map_option int (parse_unsigned cs)
                   else map_option int (parse_unsigned t))
      in case r of None \<Rightarrow> Inl (ValueError (InvalidIntLiteral s)) | Some n \<Rightarrow> Inr n)"

subsection \<open>Regular expressions\<close>

text \<open>
  \<^verbatim>\<open>re.fullmatch\<close> for the fragment the plugin uses (character classes, sequence,
  \<^verbatim>\<open>+\<close> and \<^verbatim>\<open>?\<close>), decided by derivatives. For this fragment a backtracking matcher
  finds a full match exactly when the string is in the language of the expression.
\<close>

datatype rexp =
    Empty
  | Eps
  | Chars string
  | Seq rexp rexp
  | Alt rexp rexp
  | Star rexp

fun nullable :: "rexp \<Rightarrow> bool" where
  "nullable Empty = False"
| "nullable Eps = True"
| "nullable (Chars cs) = False"
| "nullable (Seq r s) = (nullable r \<and> nullable s)"
| "nullable (Alt r s) = (nullable r \<or> nullable s)"
| "nullable (Star r) = True"

fun deriv :: "char \<Rightarrow> rexp \<Rightarrow> rexp" where
  "deriv c Empty = Empty"
| "deriv c Eps = Empty"
| "deriv c (Chars cs) = (if c \<in> set cs then Eps else Empty)"
| "deriv c (Seq r s) =
     (if nullable r then Alt (Seq (deriv c r) s) (deriv c s) else Seq (deriv c r) s)"
| "deriv c (Alt r s) = Alt (deriv c r) (deriv c s)"
| "deriv c (Star r) = Seq (deriv c r) (Star r)"

definition fullmatch :: "rexp \<Rightarrow> string \<Rightarrow> bool" where
  "fullmatch r s = nullable (foldl (\<lambda>r c. deriv c r) r s)"

definition Plus :: "rexp \<Rightarrow> rexp" where
  "Plus r = Seq r (Star r)"

definition Opt :: "rexp \<Rightarrow> rexp" where
  "Opt r = Alt r Eps"

text \<open>\<^verbatim>\<open>re.compile(r'([a-z0-9][._/-]?)+(:([a-z0-9][._/-]?)+)?')\<close>\<close>

definition name_component :: rexp where
  "name_component =
     Seq (Chars ''abcdefghijklmnopqrstuvwxyz0123456789'') (Opt (Chars ''._/-''))"

definition repository_syntax :: rexp where
  "repository_syntax =
     Seq (Plus name_component) (Opt (Seq (Chars '':'') (Plus name_component)))"

subsection \<open>configure\<close>

text \<open>
  The configuration node as the loader hands it over, after the plugin's default
  YAML has been composed in: the members read without a \<^verbatim>\<open>default=\<close> are present,
  the four members of \<^verbatim>\<open>health-check\<close> may be absent.
\<close>

record health_check_node =
  tests :: "string list option"
  interval :: "int option"
  timeout :: "int option"
  retries :: "int option"

record node =
  exposed_ports :: "string list"
  env :: "string list"
  entry_point :: "string list"
  cmd :: "string list"
  volumes :: "string list"
  working_dir :: string
  health_check :: health_check_node
  image_names :: "string list"

text \<open>The attributes \<^verbatim>\<open>configure\<close> sets on \<^verbatim>\<open>self\<close>.\<close>

record docker_element =
  self_exposed_ports :: "(string \<times> json) list"
  self_env :: "string list"
  self_entry_point :: "string list"
  self_cmd :: "string list"
  self_volumes :: "(string \<times> json) list"
  self_working_dir :: string
  self_health_check :: "(string \<times> json) list"
  self_image_names :: "(string \<times> string) list"
  self_created :: string
  self_author :: string

definition node_get_member :: "'a option \<Rightarrow> 'a \<Rightarrow> 'a" where
  "node_get_member member dflt = (case member of None \<Rightarrow> dflt | Some v \<Rightarrow> v)"

text \<open>
  \<open>utcnow\<close> is \<^verbatim>\<open>datetime.utcnow().replace(microsecond=0).isoformat()\<close>, read once.
  The only statement of \<^verbatim>\<open>configure\<close> that can raise on such a node is the
  construction of the image-name dictionary.
\<close>

definition configure :: "string \<Rightarrow> node \<Rightarrow> error + docker_element" where
  "configure utcnow n =
     (let hc = health_check n;
          health =
            [(''Tests'', JList (map JStr (node_get_member (tests hc) [''NONE'']))),
             (''Interval'', JInt (node_get_member (interval hc) 0)),
             (''Timeout'', JInt (node_get_member (timeout hc) 0)),
             (''Retries'', JInt (node_get_member (retries hc) 0))];
          ports = dict_of (map (\<lambda>port. (port, JObj [])) (exposed_ports n));
          vols = dict_of (map (\<lambda>volume. (volume, JObj [])) (volumes n))
      in case py_dict (map (split1 CHR '':'') (image_names n)) of
           Inl e \<Rightarrow> Inl e
         | Inr names \<Rightarrow>
             Inr \<lparr> self_exposed_ports = ports,
                   self_env = env n,
                   self_entry_point = entry_point n,
                   self_cmd = cmd n,
                   self_volumes = vols,
                   self_working_dir = working_dir n,
                   self_health_check = health,
                   self_image_names = names,
                   self_created = utcnow @ ''Z'',
                   self_author = ''BuildStream docker_image plugin'' \<rparr>)"

subsection \<open>preflight\<close>

definition port_options :: "string list" where
  "port_options = [''tcp'', ''udp'']"

text \<open>One turn of the loop over the exposed ports.\<close>

definition check_port :: "string \<Rightarrow> error + unit" where
  "check_port port =
     (let checked =
            (if CHR ''/'' \<in> set port then
               (let port' = takeWhile (\<lambda>c. c \<noteq> CHR ''/'') port;
                    port_option = tl (dropWhile (\<lambda>c. c \<noteq> CHR ''/'') port)
                in if port_option \<notin> set port_options
                   then Inl (ElementError (InvalidPortOption port_option) ''docker-invalid-port-option'')
                   else Inr port')
             else Inr port)
      in case checked of
           Inl e \<Rightarrow> Inl e
         | Inr p \<Rightarrow>
             (case py_int p of
                Inl e \<Rightarrow> Inl e
              | Inr v \<Rightarrow>
                  if v > 65535 \<or> v < 0
                  then Inl (ElementError (InvalidPortNumber p) ''docker-port-out-out-of-range'')
                  else Inr ()))"

fun check_ports :: "string list \<Rightarrow> error + unit" where
  "check_ports [] = Inr ()"
| "check_ports (port # ports) =
     (case check_port port of Inl e \<Rightarrow> Inl e | Inr _ \<Rightarrow> check_ports ports)"

fun check_image_names :: "string list \<Rightarrow> error + unit" where
  "check_image_names [] = Inr ()"
| "check_image_names (image_name # names) =
     (if \<not> fullmatch repository_syntax image_name
      then Inl (ElementError (InvalidImageName image_name) ''docker-bdepend-wrong-count'')
      else check_image_names names)"

text \<open>
  \<open>build_deps\<close> is \<^verbatim>\<open>list(self.dependencies(Scope.BUILD, recurse=False))\<close>. Iterating
  a dictionary iterates its keys.
\<close>

definition preflight :: "docker_element \<Rightarrow> 'e list \<Rightarrow> error + unit" where
  "preflight self build_deps =
     (case check_ports (map fst (self_exposed_ports self)) of
        Inl e \<Rightarrow> Inl e
      | Inr _ \<Rightarrow>
          if length build_deps < 1
          then Inl (ElementError MissingBuildDependency ''docker-bdepend-wrong-count'')
          else check_image_names (map fst (self_image_names self)))"

text \<open>
  The core instantiates the element with \<^verbatim>\<open>configure\<close> and then calls
  \<^verbatim>\<open>preflight\<close>; an exception of either ends the session.
\<close>

definition load_element :: "string \<Rightarrow> node \<Rightarrow> 'e list \<Rightarrow> error + docker_element" where
  "load_element utcnow n build_deps =
     (case configure utcnow n of
        Inl e \<Rightarrow> Inl e
      | Inr self \<Rightarrow>
          (case preflight self build_deps of Inl e \<Rightarrow> Inl e | Inr _ \<Rightarrow> Inr self))"

section \<open>Staging the layers\<close>

text \<open>
  \<open>run_deps element\<close> is \<^verbatim>\<open>element.dependencies(Scope.RUN)\<close>, in the order the
  collaborator yields it. The elements of one project are finitely many. The pair
  threaded through \<^verbatim>\<open>_stage_layer\<close> is the \<^verbatim>\<open>visited\<close> set and the elements whose
  artifacts \<^verbatim>\<open>stage_dependency_artifacts(sandbox, Scope.NONE, path=layer_path)\<close> has put
  into \<^verbatim>\<open>layer_path\<close> so far, oldest first.
\<close>

function stage_layer ::
    "('e::finite \<Rightarrow> 'e list) \<Rightarrow> 'e \<Rightarrow> 'e set \<times> 'e list \<Rightarrow> 'e set \<times> 'e list"
  and stage_layer_loop ::
    "('e \<Rightarrow> 'e list) \<Rightarrow> 'e list \<Rightarrow> 'e set \<times> 'e list \<Rightarrow> 'e set \<times> 'e list"
where
  "stage_layer run_deps element (visited, staged) =
     (if element \<notin> visited then
        (case stage_layer_loop run_deps (run_deps element) (insert element visited, staged) of
           (visited', staged') \<Rightarrow> (visited', staged' @ [element]))
      else (visited, staged))"
| "stage_layer_loop run_deps [] s = s"
| "stage_layer_loop run_deps (dependency # rest) s =
     stage_layer_loop run_deps rest (stage_layer run_deps dependency s)"
  by pat_completeness auto

lemma stage_layer_dom_visited_grows:
  "stage_layer_stage_layer_loop_dom (Inl (rd, e, s)) \<Longrightarrow> fst s \<subseteq> fst (stage_layer rd e s)"
  "stage_layer_stage_layer_loop_dom (Inr (rd, ds, s)) \<Longrightarrow> fst s \<subseteq> fst (stage_layer_loop rd ds s)"
proof (induction rd e s and rd ds s rule: stage_layer_stage_layer_loop.pinduct)
  case (1 run_deps element visited staged)
  then show ?case
    by (auto simp: stage_layer.psimps split: prod.splits)
next
  case (2 run_deps s)
  then show ?case by (simp add: stage_layer_loop.psimps)
next
  case (3 run_deps dependency rest s)
  then show ?case by (auto simp: stage_layer_loop.psimps)
qed

termination stage_layer
proof (relation "inv_image (less_than <*lex*> less_than)
    (\<lambda>x. case x of
       Inl (rd, e, s) \<Rightarrow> (card (UNIV - fst s), 0)
     | Inr (rd, ds, s) \<Rightarrow> (card (UNIV - fst s), Suc (length ds)))", goal_cases)
  case 1
  show ?case by (intro wf_inv_image wf_lex_prod wf_less_than)
next
  case (2 run_deps element visited staged)
  have "UNIV - insert element visited \<subset> UNIV - visited"
    using 2 by auto
  then have "card (UNIV - insert element visited) < card (UNIV - visited)"
    by (intro psubset_card_mono) auto
  then show ?case by simp
next
  case (3 run_deps dependency rest s)
  then show ?case by simp
next
  case (4 run_deps dependency rest s)
  have "card (UNIV - fst (stage_layer run_deps dependency s)) \<le> card (UNIV - fst s)"
    using stage_layer_dom_visited_grows(1)[OF 4] by (intro card_mono) auto
  then show ?case by auto
qed

text \<open>
  \<^verbatim>\<open>_stage_layers\<close>, run to its end: for every direct build dependency, in declared
  order, the dependency (its \<^verbatim>\<open>normal_name\<close> names the layer's directory, and the
  names of distinct elements differ) with the elements staged into that directory.
  \<open>visited\<close> is created once and handed from one dependency to the next.
\<close>

fun stage_layers_from :: "('e::finite \<Rightarrow> 'e list) \<Rightarrow> 'e set \<Rightarrow> 'e list \<Rightarrow> ('e \<times> 'e list) list" where
  "stage_layers_from run_deps visited [] = []"
| "stage_layers_from run_deps visited (dependency # rest) =
     (case stage_layer run_deps dependency (visited, []) of
        (visited', staged) \<Rightarrow> (dependency, staged) # stage_layers_from run_deps visited' rest)"

definition stage_layers :: "('e::finite \<Rightarrow> 'e list) \<Rightarrow> 'e list \<Rightarrow> ('e \<times> 'e list) list" where
  "stage_layers run_deps build_deps = stage_layers_from run_deps {} build_deps"

text \<open>
  \<open>stage_artifact element dir\<close> is the directory \<open>dir\<close> after the collaborator has
  staged the artifact of \<open>element\<close> into it. A layer's directory is created empty.
\<close>

section \<open>Archiving a staged directory\<close>

text \<open>
  What \<^verbatim>\<open>os.lstat\<close>, \<^verbatim>\<open>pwd.getpwuid\<close> and \<^verbatim>\<open>grp.getgrgid\<close> report for an entry on
  disk. An artifact holds regular files, symbolic links and directories; the entries of
  a directory are listed in the order \<^verbatim>\<open>os.listdir\<close> returns them.
\<close>

record stat =
  st_mode :: nat
  st_ino :: nat
  st_dev :: nat
  st_nlink :: nat
  st_uid :: nat
  st_gid :: nat
  st_mtime :: nat
  pw_name :: string
  gr_name :: string

datatype fsnode =
    RegularFile stat "8 word list"
  | SymbolicLink stat string
  | Directory stat "(string \<times> fsnode) list"

type_synonym directory = "(string \<times> fsnode) list"

definition stage_directory :: "('e \<Rightarrow> directory \<Rightarrow> directory) \<Rightarrow> 'e list \<Rightarrow> directory" where
  "stage_directory stage_artifact staged = foldl (\<lambda>dir element. stage_artifact element dir) [] staged"

datatype typeflag = REGTYPE | LNKTYPE | SYMTYPE | DIRTYPE

record tarinfo =
  ti_name :: string
  ti_mode :: nat
  ti_uid :: nat
  ti_gid :: nat
  ti_size :: nat
  ti_mtime :: nat
  ti_type :: typeflag
  ti_linkname :: string
  ti_uname :: string
  ti_gname :: string

type_synonym member = "tarinfo \<times> 8 word list"

text \<open>\<^verbatim>\<open>buildstream.utils._magic_timestamp\<close>: 2011-11-11 11:11:11 UTC.\<close>

definition magic_timestamp :: nat where
  "magic_timestamp = 1321009871"

definition set_tar_headers :: "tarinfo \<Rightarrow> tarinfo" where
  "set_tar_headers ti =
     ti\<lparr> ti_uname := ''buildstream'', ti_gname := ''buildstream'', ti_mtime := magic_timestamp \<rparr>"

text \<open>The header \<^verbatim>\<open>TarFile.gettarinfo\<close> fills in from the entry on disk.\<close>

definition gettarinfo :: "string \<Rightarrow> stat \<Rightarrow> typeflag \<Rightarrow> string \<Rightarrow> nat \<Rightarrow> tarinfo" where
  "gettarinfo arcname st type linkname size' =
     \<lparr> ti_name = arcname, ti_mode = st_mode st, ti_uid = st_uid st, ti_gid = st_gid st,
       ti_size = size', ti_mtime = st_mtime st, ti_type = type, ti_linkname = linkname,
       ti_uname = pw_name st, ti_gname = gr_name st \<rparr>"

lemma size_list_insort_key:
  "size_list f (insort_key k x xs) = Suc (f x + size_list f xs)"
  by (induction xs) auto

lemma size_list_sort_key: "size_list f (sort_key k xs) = size_list f xs"
  by (induction xs) (auto simp: size_list_insort_key)

lemma size_list_snd_le:
  "size_list (\<lambda>p. size (snd p)) xs \<le> size_list (size_prod (\<lambda>x. 0) size) xs"
  by (induction xs) auto

text \<open>
  \<^verbatim>\<open>TarFile.add(name, arcname, recursive=True, filter=flt)\<close>. The archive is the list of
  members written so far (header and data); \<open>inodes\<close> is the archive's table of the
  regular files already written, by inode number and device: a second name of the same
  inode is written as a hard link. The entries of a directory are added in sorted order.
\<close>

function tar_add ::
    "(tarinfo \<Rightarrow> tarinfo) \<Rightarrow> string \<Rightarrow> fsnode \<Rightarrow>
     (nat \<times> nat \<rightharpoonup> string) \<times> member list \<Rightarrow> (nat \<times> nat \<rightharpoonup> string) \<times> member list"
  and tar_add_children ::
    "(tarinfo \<Rightarrow> tarinfo) \<Rightarrow> string \<Rightarrow> (string \<times> fsnode) list \<Rightarrow>
     (nat \<times> nat \<rightharpoonup> string) \<times> member list \<Rightarrow> (nat \<times> nat \<rightharpoonup> string) \<times> member list"
where
  "tar_add flt arcname (RegularFile st data) (inodes, members) =
     (if st_nlink st > 1 \<and> inodes (st_ino st, st_dev st) \<noteq> None \<and>
         inodes (st_ino st, st_dev st) \<noteq> Some arcname
      then (inodes,
            members @ [(flt (gettarinfo arcname st LNKTYPE (the (inodes (st_ino st, st_dev st))) 0), [])])
      else ((if st_ino st \<noteq> 0 then inodes((st_ino st, st_dev st) \<mapsto> arcname) else inodes),
            members @ [(flt (gettarinfo arcname st REGTYPE [] (length data)), data)]))"
| "tar_add flt arcname (SymbolicLink st target) (inodes, members) =
     (inodes, members @ [(flt (gettarinfo arcname st SYMTYPE target 0), [])])"
| "tar_add flt arcname (Directory st entries) (inodes, members) =
     tar_add_children flt arcname (sort_key fst entries)
       (inodes, members @ [(flt (gettarinfo arcname st DIRTYPE [] 0), [])])"
| "tar_add_children flt arcname [] s = s"
| "tar_add_children flt arcname ((f, child) # rest) s =
     tar_add_children flt arcname rest (tar_add flt (arcname @ ''/'' @ f) child s)"
  by pat_completeness auto
termination
  by (relation "measure (\<lambda>x. case x of
        Inl (flt, a, n, s) \<Rightarrow> size n
      | Inr (flt, a, ns, s) \<Rightarrow> size_list (\<lambda>p. size (snd p)) ns)")
     (auto simp: size_list_sort_key less_Suc_eq_le size_list_snd_le)

text \<open>
  The loop of \<^verbatim>\<open>_create_layer\<close> over \<^verbatim>\<open>os.listdir(changeset_dir)\<close>: every top-level
  entry is added under its own name, in listing order.
\<close>

fun tar_add_listing ::
  "(tarinfo \<Rightarrow> tarinfo) \<Rightarrow> directory \<Rightarrow>
   (nat \<times> nat \<rightharpoonup> string) \<times> member list \<Rightarrow> (nat \<times> nat \<rightharpoonup> string) \<times> member list" where
  "tar_add_listing flt [] s = s"
| "tar_add_listing flt ((f, child) # rest) s = tar_add_listing flt rest (tar_add flt f child s)"

definition layer_members :: "directory \<Rightarrow> member list" where
  "layer_members changeset_dir = snd (tar_add_listing set_tar_headers changeset_dir (Map.empty, []))"

section \<open>Hashing and the layer directory\<close>

text \<open>
  The library functions the plugin calls and whose results it only passes on:
  \<^verbatim>\<open>hashlib.sha256\<close> over a byte string, the bytes \<^verbatim>\<open>tarfile\<close> writes for a list of
  members, and the bytes \<^verbatim>\<open>json.dump\<close> writes for a value.
\<close>

record libs =
  sha256 :: "8 word list \<Rightarrow> 256 word"
  tar_format :: "member list \<Rightarrow> 8 word list"
  json_dumps :: "json \<Rightarrow> 8 word list"

text \<open>\<^verbatim>\<open>hexdigest()\<close>: 64 lower-case hexadecimal digits, the most significant first.\<close>

definition hex_digit :: "nat \<Rightarrow> char" where
  "hex_digit n = ''0123456789abcdef'' ! n"

definition hexdigest :: "256 word \<Rightarrow> string" where
  "hexdigest w = map (\<lambda>i. hex_digit (unat (and (drop_bit (4 * (63 - i)) w) 15))) [0..<64]"

text \<open>
  A file holds what was written into it; \<open>Partial\<close> is a file that has been opened for
  writing and does not hold all of its content yet. The directory \<^verbatim>\<open>layers\<close> holds
  files and directories of files, by name.
\<close>

datatype content =
    Tar "member list"
  | Text string
  | Json json

datatype file_data = Partial | Written content

datatype entry = File file_data | Dir "(string \<times> file_data) list"

type_synonym layer_dir = "(string \<times> entry) list"

definition file_bytes :: "libs \<Rightarrow> content \<Rightarrow> 8 word list" where
  "file_bytes L c =
     (case c of
        Tar members \<Rightarrow> tar_format L members
      | Text s \<Rightarrow> map of_char s
      | Json body \<Rightarrow> json_dumps L body)"

text \<open>
  The sandbox of one \<^verbatim>\<open>assemble\<close>: the directory \<^verbatim>\<open>layers\<close>, the archive
  \<^verbatim>\<open>image/image.tar\<close> once it is packed (it holds the entries of \<^verbatim>\<open>layers\<close> at that
  moment), and every state \<^verbatim>\<open>layers\<close> has been in, the latest first.
\<close>

record sandbox =
  sb_layers :: layer_dir
  sb_image :: "layer_dir option"
  sb_trace :: "layer_dir list"

definition empty_sandbox :: sandbox where
  "empty_sandbox = \<lparr> sb_layers = [], sb_image = None, sb_trace = [[]] \<rparr>"

definition record_state :: "layer_dir \<Rightarrow> sandbox \<Rightarrow> sandbox" where
  "record_state l sb = sb\<lparr> sb_layers := l, sb_trace := l # sb_trace sb \<rparr>"

definition and_then ::
  "(error + 'a) \<times> sandbox \<Rightarrow> ('a \<Rightarrow> sandbox \<Rightarrow> (error + 'b) \<times> sandbox) \<Rightarrow> (error + 'b) \<times> sandbox" where
  "and_then r k = (case r of (Inl e, sb) \<Rightarrow> (Inl e, sb) | (Inr x, sb) \<Rightarrow> k x sb)"

text \<open>\<^verbatim>\<open>os.makedirs(layer_dir/name, exist_ok=True)\<close>\<close>

definition makedirs_exist_ok :: "string \<Rightarrow> sandbox \<Rightarrow> (error + unit) \<times> sandbox" where
  "makedirs_exist_ok name sb =
     (case map_of (sb_layers sb) name of
        None \<Rightarrow> (Inr (), record_state (AList.update name (Dir []) (sb_layers sb)) sb)
      | Some (Dir _) \<Rightarrow> (Inr (), sb)
      | Some (File _) \<Rightarrow> (Inl FileExistsError, sb))"

text \<open>A path below \<^verbatim>\<open>layers\<close> is \<open>[name]\<close> or \<open>[dir, name]\<close>.\<close>

fun set_file :: "string list \<Rightarrow> file_data \<Rightarrow> layer_dir \<Rightarrow> error + layer_dir" where
  "set_file [name] f l =
     (case map_of l name of
        Some (Dir _) \<Rightarrow> Inl IsADirectoryError
      | _ \<Rightarrow> Inr (AList.update name (File f) l))"
| "set_file [dir, name] f l =
     (case map_of l dir of
        None \<Rightarrow> Inl FileNotFoundError
      | Some (File _) \<Rightarrow> Inl NotADirectoryError
      | Some (Dir files) \<Rightarrow> Inr (AList.update dir (Dir (AList.update name f files)) l))"
| "set_file _ f l = Inl FileNotFoundError"

fun read_file :: "layer_dir \<Rightarrow> string list \<Rightarrow> file_data option" where
  "read_file l [name] = (case map_of l name of Some (File f) \<Rightarrow> Some f | _ \<Rightarrow> None)"
| "read_file l [dir, name] = (case map_of l dir of Some (Dir files) \<Rightarrow> map_of files name | _ \<Rightarrow> None)"
| "read_file l _ = None"

text \<open>
  Opening a file for writing creates or empties it; it holds its content when the
  writer is done. Both states are states of the directory.
\<close>

definition write_file :: "string list \<Rightarrow> content \<Rightarrow> sandbox \<Rightarrow> (error + unit) \<times> sandbox" where
  "write_file path c sb =
     (case set_file path Partial (sb_layers sb) of
        Inl e \<Rightarrow> (Inl e, sb)
      | Inr opened \<Rightarrow>
          (let sb' = record_state opened sb
           in case set_file path (Written c) opened of
                Inl e \<Rightarrow> (Inl e, sb')
              | Inr closed \<Rightarrow> (Inr (), record_state closed sb')))"

definition save_json :: "json \<Rightarrow> string list \<Rightarrow> sandbox \<Rightarrow> (error + unit) \<times> sandbox" where
  "save_json body file_location sb = write_file file_location (Json body) sb"

text \<open>
  \<^verbatim>\<open>_hash_digest\<close> reads the file block by block into the hash; the digest is that of
  all its bytes. No file is read while it is being written.
\<close>

definition hash_digest :: "libs \<Rightarrow> string list \<Rightarrow> sandbox \<Rightarrow> (error + string) \<times> sandbox" where
  "hash_digest L file' sb =
     (case read_file (sb_layers sb) file' of
        Some (Written c) \<Rightarrow> (Inr (hexdigest (sha256 L (file_bytes L c))), sb)
      | _ \<Rightarrow> (Inl FileNotFoundError, sb))"

text \<open>
  \<^verbatim>\<open>buildstream.utils.move_atomic\<close> is \<^verbatim>\<open>os.rename\<close>: the destination is replaced
  when it is a file or an empty directory of the source's kind;
  \<^verbatim>\<open>DirectoryExistsError\<close> when it is a directory that is not empty.
\<close>

definition move_atomic :: "string \<Rightarrow> string \<Rightarrow> sandbox \<Rightarrow> (error + unit) \<times> sandbox" where
  "move_atomic source destination sb =
     (let l = sb_layers sb;
          moved = (\<lambda>e. (Inr (), record_state (AList.update destination e (AList.delete source l)) sb))
      in case map_of l source of
           None \<Rightarrow> (Inl FileNotFoundError, sb)
         | Some e \<Rightarrow>
             if source = destination then (Inr (), sb)
             else
               (case map_of l destination of
                  None \<Rightarrow> moved e
                | Some (Dir files) \<Rightarrow>
                    (case e of
                       File _ \<Rightarrow> (Inl IsADirectoryError, sb)
                     | Dir _ \<Rightarrow> if files = [] then moved e else (Inl DirectoryExistsError, sb))
                | Some (File _) \<Rightarrow>
                    (case e of
                       File _ \<Rightarrow> moved e
                     | Dir _ \<Rightarrow> (Inl NotADirectoryError, sb))))"

section \<open>assemble\<close>

definition LAYER_CONFIG_VERSION :: string where
  "LAYER_CONFIG_VERSION = ''1.0''"

definition v1_json :: "docker_element \<Rightarrow> string \<Rightarrow> json" where
  "v1_json self digest =
     JObj
       [(''id'', JStr digest),
        (''created'', JStr (self_created self)),
        (''author'', JStr (self_author self)),
        (''checksum'', JStr (''tarsum.v1+sha256:'' @ digest)),
        (''config'', JObj
           [(''ExposedPorts'', JObj (self_exposed_ports self)),
            (''Env'', JList (map JStr (self_env self))),
            (''EntryPoint'', JList (map JStr (self_entry_point self))),
            (''Cmd'', JList (map JStr (self_cmd self))),
            (''Volumes'', JObj (self_volumes self)),
            (''WorkingDir'', JStr (self_working_dir self))])]"

text \<open>
  \<^verbatim>\<open>_create_layer\<close>: the archive is written into \<^verbatim>\<open>layers/tmp\<close>, hashed, the directory
  renamed to the digest, and then \<^verbatim>\<open>VERSION\<close> and \<^verbatim>\<open>json\<close> are written into the
  renamed directory.
\<close>

definition create_layer ::
  "libs \<Rightarrow> docker_element \<Rightarrow> directory \<Rightarrow> sandbox \<Rightarrow> (error + string) \<times> sandbox" where
  "create_layer L self changeset_dir sb =
     and_then (makedirs_exist_ok ''tmp'' sb) (\<lambda>_ sb.
     and_then (write_file [''tmp'', ''layer.tar''] (Tar (layer_members changeset_dir)) sb) (\<lambda>_ sb.
     and_then (hash_digest L [''tmp'', ''layer.tar''] sb) (\<lambda>digest sb.
     and_then (move_atomic ''tmp'' digest sb) (\<lambda>_ sb.
     and_then (write_file [digest, ''VERSION''] (Text LAYER_CONFIG_VERSION) sb) (\<lambda>_ sb.
     and_then (save_json (v1_json self digest) [digest, ''json''] sb) (\<lambda>_ sb.
     (Inr digest, sb)))))))"

text \<open>
  The list comprehension of \<^verbatim>\<open>assemble\<close> over the staged layers: one
  \<^verbatim>\<open>_create_layer\<close> after the other, the digests collected in the same order.
\<close>

fun create_layers ::
  "libs \<Rightarrow> docker_element \<Rightarrow> directory list \<Rightarrow> sandbox \<Rightarrow> (error + string list) \<times> sandbox" where
  "create_layers L self [] sb = (Inr [], sb)"
| "create_layers L self (layer_path # rest) sb =
     and_then (create_layer L self layer_path sb) (\<lambda>digest sb.
     and_then (create_layers L self rest sb) (\<lambda>digests sb.
     (Inr (digest # digests), sb)))"

definition image_config :: "docker_element \<Rightarrow> string list \<Rightarrow> json" where
  "image_config self layer_digests =
     JObj
       [(''created'', JStr (self_created self)),
        (''author'', JStr (self_author self)),
        (''config'', JObj
           [(''ExposedPorts'', JObj (self_exposed_ports self)),
            (''Env'', JList (map JStr (self_env self))),
            (''Entrypoint'', JList (map JStr (self_entry_point self))),
            (''Cmd'', JList (map JStr (self_cmd self))),
            (''Volumes'', JObj (self_volumes self)),
            (''WorkingDir'', JStr (self_working_dir self)),
            (''HealthCheck'', JObj (self_health_check self))]),
        (''rootfs'', JObj
           [(''diff_ids'', JList (map (\<lambda>layer_digest. JStr (''sha256:'' @ layer_digest)) layer_digests)),
            (''type'', JStr ''layers'')]),
        (''history'', JList (map (\<lambda>_. JObj
           [(''created'', JStr (self_created self)),
            (''created_by'', JStr ''BuildStream Docker Image Plugin'')]) layer_digests))]"

definition create_image_config ::
  "libs \<Rightarrow> docker_element \<Rightarrow> string list \<Rightarrow> sandbox \<Rightarrow> (error + string) \<times> sandbox" where
  "create_image_config L self layer_digests sb =
     and_then (save_json (image_config self layer_digests) [''tmp''] sb) (\<lambda>_ sb.
     and_then (hash_digest L [''tmp''] sb) (\<lambda>image_digest sb.
     and_then (move_atomic ''tmp'' (image_digest @ ''.json'') sb) (\<lambda>_ sb.
     (Inr image_digest, sb))))"

definition repositories :: "docker_element \<Rightarrow> string \<Rightarrow> json" where
  "repositories self top_layer_digest =
     JObj (map (\<lambda>(name, tag). (name, JStr (tag @ '':'' @ top_layer_digest))) (self_image_names self))"

definition create_repositories_file ::
  "docker_element \<Rightarrow> string \<Rightarrow> sandbox \<Rightarrow> (error + unit) \<times> sandbox" where
  "create_repositories_file self top_layer_digest sb =
     save_json (repositories self top_layer_digest) [''repositories''] sb"

definition manifest :: "docker_element \<Rightarrow> string list \<Rightarrow> string \<Rightarrow> json" where
  "manifest self layer_digests config_digest =
     JList [JObj
       [(''Config'', JStr (config_digest @ ''.json'')),
        (''Layers'', JList (map (\<lambda>layer_digest. JStr (layer_digest @ ''/layer.tar'')) layer_digests)),
        (''RepoTags'', JList (map (\<lambda>(name, tag). JStr (name @ '':'' @ tag)) (self_image_names self)))]]"

definition create_manifest ::
  "docker_element \<Rightarrow> string list \<Rightarrow> string \<Rightarrow> sandbox \<Rightarrow> (error + unit) \<times> sandbox" where
  "create_manifest self layer_digests config_digest sb =
     save_json (manifest self layer_digests config_digest) [''manifest.json''] sb"

definition pack_image :: "sandbox \<Rightarrow> (error + unit) \<times> sandbox" where
  "pack_image sb = (Inr (), sb\<lparr> sb_image := Some (sb_layers sb) \<rparr>)"

text \<open>
  \<^verbatim>\<open>assemble\<close> in a fresh sandbox. \<^verbatim>\<open>layer_digests[0]\<close> is evaluated after the image
  configuration has been created and raises \<^verbatim>\<open>IndexError\<close> on an empty list.
\<close>

definition assemble ::
  "libs \<Rightarrow> docker_element \<Rightarrow> ('e::finite \<Rightarrow> 'e list) \<Rightarrow> ('e \<Rightarrow> directory \<Rightarrow> directory) \<Rightarrow>
   'e list \<Rightarrow> (error + string) \<times> sandbox" where
  "assemble L self run_deps stage_artifact build_deps =
     (let layer_paths =
            map (\<lambda>(dependency, staged). stage_directory stage_artifact staged)
              (stage_layers run_deps build_deps)
      in and_then (create_layers L self layer_paths empty_sandbox) (\<lambda>layer_digests sb.
         and_then (create_image_config L self layer_digests sb) (\<lambda>image_id sb.
         and_then (case layer_digests of
                     [] \<Rightarrow> (Inl IndexError, sb)
                   | base # _ \<Rightarrow> create_repositories_file self base sb) (\<lambda>_ sb.
         and_then (create_manifest self layer_digests image_id sb) (\<lambda>_ sb.
         and_then (pack_image sb) (\<lambda>_ sb.
         (Inr ''/image'', sb)))))))"

text \<open>
  One build of the element, as the core drives the plugin: the element is loaded
  (\<^verbatim>\<open>configure\<close>, \<^verbatim>\<open>preflight\<close>) and, when neither raised, assembled.
\<close>

definition build_element ::
  "string \<Rightarrow> node \<Rightarrow> libs \<Rightarrow> ('e::finite \<Rightarrow> 'e list) \<Rightarrow> ('e \<Rightarrow> directory \<Rightarrow> directory) \<Rightarrow>
   'e list \<Rightarrow> (error + string) \<times> sandbox" where
  "build_element utcnow n L run_deps stage_artifact build_deps =
     (case load_element utcnow n build_deps of
        Inl e \<Rightarrow> (Inl e, empty_sandbox)
      | Inr self \<Rightarrow> assemble L self run_deps stage_artifact build_deps)"

section \<open>Vocabulary of the properties\<close>

text \<open>
  The pair \<^verbatim>\<open>repo.split(':', 1)\<close> yields for an entry with a colon, and the parts of an
  exposed port \<^verbatim>\<open>port[/protocol]\<close>.
\<close>


definition split_at_first_colon :: "string \<Rightarrow> string \<times> string" where
  "split_at_first_colon repo =
     (takeWhile (\<lambda>c. c \<noteq> CHR '':'') repo, tl (dropWhile (\<lambda>c. c \<noteq> CHR '':'') repo))"

definition port_number :: "string \<Rightarrow> string" where
  "port_number port = takeWhile (\<lambda>c. c \<noteq> CHR ''/'') port"

definition port_suffix :: "string \<Rightarrow> string" where
  "port_suffix port = tl (dropWhile (\<lambda>c. c \<noteq> CHR ''/'') port)"

definition out_of_range :: "string \<Rightarrow> bool" where
  "out_of_range port =
     (case py_int (port_number port) of Inl _ \<Rightarrow> False | Inr v \<Rightarrow> v > 65535 \<or> v < 0)"

definition unsupported_protocol :: "string \<Rightarrow> bool" where
  "unsupported_protocol port = (CHR ''/'' \<in> set port \<and> port_suffix port \<notin> set port_options)"

definition malformed_name :: "string \<Rightarrow> bool" where
  "malformed_name name = (\<not> fullmatch repository_syntax name)"

definition invalid_config :: "docker_element \<Rightarrow> bool" where
  "invalid_config self =
     ((\<exists>port \<in> set (map fst (self_exposed_ports self)). out_of_range port \<or> unsupported_protocol port)
      \<or> (\<exists>name \<in> set (map fst (self_image_names self)). malformed_name name))"

text \<open>
  The checking order of \<^verbatim>\<open>preflight\<close>: the exposed ports in their order, for each the
  protocol before the number, then the image names in their order. \<open>first_offending_value\<close>
  is the message about the first value in that order that is out of range, has an
  unsupported protocol or is malformed; \<open>reported\<close> is the message an error carries.
  \<open>numeric_ports\<close>: every port checked before the first offending one has a number
  \<^verbatim>\<open>int()\<close> accepts.
\<close>

definition offending_port :: "string \<Rightarrow> bool" where
  "offending_port port = (unsupported_protocol port \<or> out_of_range port)"

definition port_message :: "string \<Rightarrow> message" where
  "port_message port =
     (if unsupported_protocol port then InvalidPortOption (port_suffix port)
      else InvalidPortNumber (port_number port))"

definition first_offending_value :: "docker_element \<Rightarrow> message option" where
  "first_offending_value self =
     (case find offending_port (map fst (self_exposed_ports self)) of
        Some port \<Rightarrow> Some (port_message port)
      | None \<Rightarrow> map_option InvalidImageName (find malformed_name (map fst (self_image_names self))))"

definition reported :: "error \<Rightarrow> message option" where
  "reported e = (case e of ElementError m reason \<Rightarrow> Some m | _ \<Rightarrow> None)"

definition int_literal :: "string \<Rightarrow> bool" where
  "int_literal s = (case py_int s of Inl _ \<Rightarrow> False | Inr _ \<Rightarrow> True)"

definition numeric_ports :: "docker_element \<Rightarrow> bool" where
  "numeric_ports self =
     (\<forall>port \<in> set (takeWhile (\<lambda>port. \<not> offending_port port) (map fst (self_exposed_ports self))).
        int_literal (port_number port))"

text \<open>Nodes for the examples: only the exposed ports and the image names vary.\<close>

definition example_node :: "string list \<Rightarrow> string list \<Rightarrow> node" where
  "example_node ports names =
     \<lparr> exposed_ports = ports, env = [], entry_point = [], cmd = [], volumes = [],
       working_dir = '''',
       health_check = \<lparr> tests = None, interval = None, timeout = None, retries = None \<rparr>,
       image_names = names \<rparr>"

text \<open>An element as \<^verbatim>\<open>configure\<close> leaves it, and stand-ins for the libraries, for the examples.\<close>

definition example_time :: string where
  "example_time = ''2019-07-01T12:00:00''"

definition example_element :: "string list \<Rightarrow> (string \<times> string) list \<Rightarrow> docker_element" where
  "example_element ports names =
     \<lparr> self_exposed_ports = map (\<lambda>port. (port, JObj [])) ports,
       self_env = [], self_entry_point = [], self_cmd = [], self_volumes = [],
       self_working_dir = [],
       self_health_check =
         [(''Tests'', JList [JStr ''NONE'']), (''Interval'', JInt 0),
          (''Timeout'', JInt 0), (''Retries'', JInt 0)],
       self_image_names = names,
       self_created = ''2019-07-01T12:00:00Z'',
       self_author = ''BuildStream docker_image plugin'' \<rparr>"

definition example_libs :: libs where
  "example_libs =
     \<lparr> sha256 = (\<lambda>bytes. word_of_nat (foldl (\<lambda>h b. 31 * h + unat b) 7 bytes)),
       tar_format = (\<lambda>members. concat (map (\<lambda>(ti, data).
          [word_of_nat (length (ti_name ti)), word_of_nat (ti_uid ti), word_of_nat (ti_gid ti),
           word_of_nat (ti_mode ti)] @ data) members)),
       json_dumps = (\<lambda>body. []) \<rparr>"

text \<open>
  The runtime edges of the graph, and reachability over them (every element reaches
  itself). \<open>staged_once\<close> relates the pair threaded through \<^verbatim>\<open>_stage_layer\<close> before and
  after a call that starts from the elements \<open>roots\<close>.
\<close>

definition run_edges :: "('e \<Rightarrow> 'e list) \<Rightarrow> ('e \<times> 'e) set" where
  "run_edges run_deps = {(x, y). y \<in> set (run_deps x)}"

definition reaches :: "('e \<Rightarrow> 'e list) \<Rightarrow> 'e \<Rightarrow> 'e \<Rightarrow> bool" where
  "reaches run_deps a c = ((a, c) \<in> (run_edges run_deps)\<^sup>*)"

definition closed_under :: "('e \<Rightarrow> 'e list) \<Rightarrow> 'e set \<Rightarrow> bool" where
  "closed_under run_deps visited = (\<forall>x \<in> visited. set (run_deps x) \<subseteq> visited)"

definition staged_once ::
  "('e \<Rightarrow> 'e list) \<Rightarrow> 'e set \<Rightarrow> 'e set \<times> 'e list \<Rightarrow> 'e set \<times> 'e list \<Rightarrow> bool" where
  "staged_once run_deps roots s s' =
     (fst s \<subseteq> fst s' \<and> roots \<subseteq> fst s' \<and>
      (\<exists>new. snd s' = snd s @ new \<and> distinct new \<and> set new = fst s' - fst s) \<and>
      (\<forall>x \<in> fst s' - fst s.
         set (run_deps x) \<subseteq> fst s' \<and> (\<exists>r \<in> roots. reaches run_deps r x)))"

text \<open>A project of four elements for the examples.\<close>

datatype elem = ElemA | ElemB | ElemC | ElemX

instance elem :: finite
proof
  have "(UNIV :: elem set) = {ElemA, ElemB, ElemC, ElemX}"
    by (auto intro: elem.exhaust)
  then show "finite (UNIV :: elem set)"
    by (metis finite.emptyI finite.insertI)
qed

text \<open>
  \<^verbatim>\<open>dependencies(Scope.RUN)\<close> of each: \<open>ElemA\<close>, \<open>ElemB\<close> and \<open>ElemX\<close> depend on
  \<open>ElemC\<close> at run time, and the scope includes the element itself.
\<close>

definition example_graph :: "elem \<Rightarrow> elem list" where
  "example_graph e =
     (case e of
        ElemA \<Rightarrow> [ElemC, ElemA]
      | ElemB \<Rightarrow> [ElemC, ElemB]
      | ElemC \<Rightarrow> [ElemC]
      | ElemX \<Rightarrow> [ElemC, ElemX])"

text \<open>
  What two staged directories that hold the same file tree may differ in. The claim
  of determinism lets the modification times and the owners and groups (numeric ids and
  names) of the entries differ: \<open>forget_owner_and_times\<close> erases all of these.
\<close>

definition forget_owner_stat :: "stat \<Rightarrow> stat" where
  "forget_owner_stat st = st\<lparr> st_uid := 0, st_gid := 0, st_mtime := 0, pw_name := [], gr_name := [] \<rparr>"

fun map_stat :: "(stat \<Rightarrow> stat) \<Rightarrow> fsnode \<Rightarrow> fsnode" where
  "map_stat f (RegularFile st data) = RegularFile (f st) data"
| "map_stat f (SymbolicLink st target) = SymbolicLink (f st) target"
| "map_stat f (Directory st entries) =
     Directory (f st) (map (\<lambda>entry. (fst entry, map_stat f (snd entry))) entries)"

definition map_stat_dir :: "(stat \<Rightarrow> stat) \<Rightarrow> directory \<Rightarrow> directory" where
  "map_stat_dir f dir = map (\<lambda>entry. (fst entry, map_stat f (snd entry))) dir"

definition forget_owner_and_times :: "directory \<Rightarrow> directory" where
  "forget_owner_and_times = map_stat_dir forget_owner_stat"

text \<open>
  Two directories staged by two builds, on two machines, also differ in the inode
  numbers, the devices and the link counts of their files. \<open>same_tree R\<close> relates two
  entries that agree in kind, permission bits, numeric owner and group, bytes and link
  target, whose directories hold entries of the same names that are related in turn (in
  whatever order each directory lists them), and whose regular files have corresponding
  inodes: \<open>R\<close> relates the inode of a file in the one tree to the inode of its
  counterpart. For a one-to-one \<open>R\<close> the same names are hard links of each other in
  both trees. \<open>same_staged R\<close> relates two staged directories whose top-level entries
  are related one by one in listing order.
\<close>

definition same_header :: "stat \<Rightarrow> stat \<Rightarrow> bool" where
  "same_header st1 st2 =
     (st_mode st1 = st_mode st2 \<and> st_uid st1 = st_uid st2 \<and> st_gid st1 = st_gid st2)"

definition same_links :: "(nat \<times> nat \<Rightarrow> nat \<times> nat \<Rightarrow> bool) \<Rightarrow> stat \<Rightarrow> stat \<Rightarrow> bool" where
  "same_links R st1 st2 =
     (R (st_ino st1, st_dev st1) (st_ino st2, st_dev st2) \<and> (st_ino st1 = 0) = (st_ino st2 = 0))"

definition one_to_one :: "('a \<Rightarrow> 'b \<Rightarrow> bool) \<Rightarrow> bool" where
  "one_to_one R = (\<forall>a b a' b'. R a b \<longrightarrow> R a' b' \<longrightarrow> (a = a') = (b = b'))"

function (sequential) same_tree :: "(nat \<times> nat \<Rightarrow> nat \<times> nat \<Rightarrow> bool) \<Rightarrow> fsnode \<Rightarrow> fsnode \<Rightarrow> bool"
  and same_entries ::
    "(nat \<times> nat \<Rightarrow> nat \<times> nat \<Rightarrow> bool) \<Rightarrow> (string \<times> fsnode) list \<Rightarrow> (string \<times> fsnode) list \<Rightarrow> bool"
where
  "same_tree R (RegularFile st1 data1) (RegularFile st2 data2) =
     (same_header st1 st2 \<and> same_links R st1 st2 \<and> data1 = data2)"
| "same_tree R (SymbolicLink st1 target1) (SymbolicLink st2 target2) =
     (same_header st1 st2 \<and> target1 = target2)"
| "same_tree R (Directory st1 entries1) (Directory st2 entries2) =
     (same_header st1 st2 \<and> same_entries R (sort_key fst entries1) (sort_key fst entries2))"
| "same_tree R _ _ = False"
| "same_entries R [] [] = True"
| "same_entries R ((f1, child1) # rest1) ((f2, child2) # rest2) =
     (f1 = f2 \<and> same_tree R child1 child2 \<and> same_entries R rest1 rest2)"
| "same_entries R _ _ = False"
  by pat_completeness auto
termination
  by (relation "measure (\<lambda>x. case x of
        Inl (R, n1, n2) \<Rightarrow> size n1
      | Inr (R, es1, es2) \<Rightarrow> size_list (\<lambda>p. size (snd p)) es1)")
     (auto simp: size_list_sort_key less_Suc_eq_le size_list_snd_le)

definition same_staged :: "(nat \<times> nat \<Rightarrow> nat \<times> nat \<Rightarrow> bool) \<Rightarrow> directory \<Rightarrow> directory \<Rightarrow> bool" where
  "same_staged R dir1 dir2 = same_entries R dir1 dir2"

text \<open>
  The regular files of a staged directory, each with its path in the archive, and what
  every file system guarantees about their link counts: a file that has another name
  in the tree has more than one link.
\<close>

function files_at :: "string \<Rightarrow> fsnode \<Rightarrow> (string \<times> stat) list"
  and files_below :: "string \<Rightarrow> (string \<times> fsnode) list \<Rightarrow> (string \<times> stat) list"
where
  "files_at arcname (RegularFile st data) = [(arcname, st)]"
| "files_at arcname (SymbolicLink st target) = []"
| "files_at arcname (Directory st entries) = files_below arcname entries"
| "files_below arcname [] = []"
| "files_below arcname ((f, child) # rest) =
     files_at (arcname @ ''/'' @ f) child @ files_below arcname rest"
  by pat_completeness auto
termination
  by (relation "measure (\<lambda>x. case x of
        Inl (a, n) \<Rightarrow> size n
      | Inr (a, ns) \<Rightarrow> size_list (\<lambda>p. size (snd p)) ns)")
     (auto simp: less_Suc_eq_le size_list_snd_le)

definition regular_files :: "directory \<Rightarrow> (string \<times> stat) list" where
  "regular_files dir = concat (map (\<lambda>(f, child). files_at f child) dir)"

definition counted_links :: "(string \<times> stat) set \<Rightarrow> bool" where
  "counted_links F =
     (\<forall>(p, st) \<in> F. \<forall>(q, st') \<in> F.
        q \<noteq> p \<and> (st_ino st', st_dev st') = (st_ino st, st_dev st) \<longrightarrow> st_nlink st > 1)"

definition links_counted :: "directory \<Rightarrow> bool" where
  "links_counted dir = counted_links (set (regular_files dir))"

text \<open>
  What holds of the two archives while two such directories are added: corresponding
  inodes have the same entry in the two tables, every entry of a table is the path of
  a file of the tree with that inode, and the members written are the same.
\<close>

definition table_of :: "(nat \<times> nat \<rightharpoonup> string) \<Rightarrow> (string \<times> stat) set \<Rightarrow> bool" where
  "table_of T F = (\<forall>k q. T k = Some q \<longrightarrow> (\<exists>st. (q, st) \<in> F \<and> (st_ino st, st_dev st) = k))"

definition corresponding ::
  "(nat \<times> nat \<Rightarrow> nat \<times> nat \<Rightarrow> bool) \<Rightarrow> (string \<times> stat) set \<Rightarrow> (string \<times> stat) set \<Rightarrow>
   (nat \<times> nat \<rightharpoonup> string) \<times> member list \<Rightarrow> (nat \<times> nat \<rightharpoonup> string) \<times> member list \<Rightarrow> bool" where
  "corresponding R F1 F2 s1 s2 =
     ((\<forall>a b. R a b \<longrightarrow> fst s1 a = fst s2 b) \<and> snd s1 = snd s2 \<and>
      table_of (fst s1) F1 \<and> table_of (fst s2) F2)"

text \<open>The digest \<^verbatim>\<open>_create_layer\<close> computes for a staged directory.\<close>

definition layer_digest :: "libs \<Rightarrow> directory \<Rightarrow> string" where
  "layer_digest L changeset_dir = hexdigest (sha256 L (tar_format L (layer_members changeset_dir)))"

text \<open>
  Staged directories for the examples. One file, as two owners have it on disk. Two
  files, as two file systems list them. A tree with a directory and two names of
  one file, as two builds stage it: other inodes, device, link counts, modification
  times and owner names, and another listing order inside the directory.
\<close>

definition example_stat :: stat where
  "example_stat =
     \<lparr> st_mode = 420, st_ino = 11, st_dev = 2049, st_nlink = 1, st_uid = 0, st_gid = 0,
       st_mtime = 1500000000, pw_name = ''root'', gr_name = ''root'' \<rparr>"

definition example_dir :: directory where
  "example_dir = [(''hello.txt'', RegularFile example_stat [104, 105])]"

definition example_dir_other_owner :: directory where
  "example_dir_other_owner =
     [(''hello.txt'', RegularFile (example_stat\<lparr> st_uid := 1000, st_gid := 1000 \<rparr>) [104, 105])]"

definition example_dir_listed :: directory where
  "example_dir_listed =
     [(''a'', RegularFile example_stat [97]),
      (''b'', RegularFile (example_stat\<lparr> st_ino := 12 \<rparr>) [98])]"

definition example_dir_listed_other :: directory where
  "example_dir_listed_other =
     [(''b'', RegularFile (example_stat\<lparr> st_ino := 12 \<rparr>) [98]),
      (''a'', RegularFile example_stat [97])]"

definition example_tree :: directory where
  "example_tree =
     [(''usr'', Directory (example_stat\<lparr> st_mode := 493, st_ino := 20, st_nlink := 2 \<rparr>)
        [(''sh'', RegularFile (example_stat\<lparr> st_ino := 21, st_nlink := 2 \<rparr>) [35, 33]),
         (''bash'', RegularFile (example_stat\<lparr> st_ino := 21, st_nlink := 2 \<rparr>) [35, 33])]),
      (''hello.txt'', RegularFile example_stat [104, 105])]"

definition example_tree_later :: directory where
  "example_tree_later =
     [(''usr'', Directory
        (example_stat\<lparr> st_mode := 493, st_ino := 700, st_dev := 66306, st_nlink := 2,
           st_mtime := 1600000000, pw_name := ''admin'', gr_name := ''wheel'' \<rparr>)
        [(''bash'', RegularFile
            (example_stat\<lparr> st_ino := 702, st_dev := 66306, st_nlink := 3,
               st_mtime := 1600000001, pw_name := ''admin'', gr_name := ''wheel'' \<rparr>) [35, 33]),
         (''sh'', RegularFile
            (example_stat\<lparr> st_ino := 702, st_dev := 66306, st_nlink := 3,
               st_mtime := 1600000001, pw_name := ''admin'', gr_name := ''wheel'' \<rparr>) [35, 33])]),
      (''hello.txt'', RegularFile
         (example_stat\<lparr> st_ino := 701, st_dev := 66306, st_nlink := 2,
            st_mtime := 1600000002, pw_name := ''admin'', gr_name := ''wheel'' \<rparr>) [104, 105])]"

definition example_inodes :: "nat \<times> nat \<Rightarrow> nat \<times> nat \<Rightarrow> bool" where
  "example_inodes k1 k2 = ((k1, k2) \<in> {((21, 2049), (702, 66306)), ((11, 2049), (701, 66306))})"

text \<open>
  What \<^verbatim>\<open>assemble\<close> is expected to leave in \<^verbatim>\<open>layers\<close>: the staged directories and
  their digests in declared order, the directory of one layer, and the digest of the
  image configuration.
\<close>

definition layer_paths :: "('e::finite \<Rightarrow> 'e list) \<Rightarrow> ('e \<Rightarrow> directory \<Rightarrow> directory) \<Rightarrow> 'e list \<Rightarrow> directory list" where
  "layer_paths run_deps stage_artifact build_deps =
     map (\<lambda>(dependency, staged). stage_directory stage_artifact staged)
       (stage_layers run_deps build_deps)"

definition layer_entry :: "libs \<Rightarrow> docker_element \<Rightarrow> directory \<Rightarrow> entry" where
  "layer_entry L self dir =
     Dir [(''layer.tar'', Written (Tar (layer_members dir))),
          (''VERSION'', Written (Text LAYER_CONFIG_VERSION)),
          (''json'', Written (Json (v1_json self (layer_digest L dir))))]"

definition image_digest :: "libs \<Rightarrow> docker_element \<Rightarrow> string list \<Rightarrow> string" where
  "image_digest L self layer_digests =
     hexdigest (sha256 L (json_dumps L (image_config self layer_digests)))"

definition only_layers :: "layer_dir \<Rightarrow> bool" where
  "only_layers l =
     (\<forall>name e. map_of l name = Some e \<longrightarrow>
        length name = 64 \<and> (\<exists>files. e = Dir files \<and> files \<noteq> []))"

definition layer_digests :: "libs \<Rightarrow> ('e::finite \<Rightarrow> 'e list) \<Rightarrow> ('e \<Rightarrow> directory \<Rightarrow> directory) \<Rightarrow> 'e list \<Rightarrow> string list" where
  "layer_digests L run_deps stage_artifact build_deps =
     map (layer_digest L) (layer_paths run_deps stage_artifact build_deps)"

text \<open>Reading a JSON value: a member of an object, a path of members, any key at any depth.\<close>

fun json_member :: "string \<Rightarrow> json \<Rightarrow> json option" where
  "json_member key (JObj members) = map_of members key"
| "json_member key _ = None"

fun json_path :: "string list \<Rightarrow> json \<Rightarrow> json option" where
  "json_path [] body = Some body"
| "json_path (key # keys) body =
     (case json_member key body of None \<Rightarrow> None | Some inner \<Rightarrow> json_path keys inner)"

fun json_has_key :: "string \<Rightarrow> json \<Rightarrow> bool" where
  "json_has_key key (JStr s) = False"
| "json_has_key key (JInt i) = False"
| "json_has_key key (JList items) = (\<exists>item \<in> set items. json_has_key key item)"
| "json_has_key key (JObj members) =
     (key \<in> fst ` set members \<or> (\<exists>member \<in> set members. json_has_key key (snd member)))"

text \<open>
  A build for the examples: the elements are \<open>True\<close> and \<open>False\<close>, neither has a
  runtime dependency, and each contributes one file.
\<close>

definition example_run_deps :: "bool \<Rightarrow> bool list" where
  "example_run_deps e = [e]"

definition example_stage :: "bool \<Rightarrow> directory \<Rightarrow> directory" where
  "example_stage e dir = dir @ (if e then example_dir else example_dir_other_owner)"

definition example_digest :: string where
  "example_digest = ''0000000000000000000000000000000000000000000000000000000181a9b103''"

definition example_digest_other :: string where
  "example_digest_other = ''000000000000000000000000000000000000000000000000000000018ed87403''"

text \<open>
  A build for the examples in which two layers come out equal: \<open>ElemB\<close> and \<open>ElemC\<close>
  are runtime dependencies of \<open>ElemA\<close>, and each of the three contributes one file
  under its own name.
\<close>

definition example_chain :: "elem \<Rightarrow> elem list" where
  "example_chain e = (case e of ElemA \<Rightarrow> [ElemB, ElemC, ElemA] | _ \<Rightarrow> [e])"

definition example_artifact :: "elem \<Rightarrow> directory \<Rightarrow> directory" where
  "example_artifact e dir =
     dir @ [(case e of ElemA \<Rightarrow> ''a'' | ElemB \<Rightarrow> ''b'' | ElemC \<Rightarrow> ''c'' | ElemX \<Rightarrow> ''x'',
             RegularFile example_stat [104, 105])]"

text \<open>A state of \<^verbatim>\<open>layers\<close> that holds layer directories and the scratch name only.\<close>

definition layers_or_scratch :: "layer_dir \<Rightarrow> bool" where
  "layers_or_scratch l = (\<forall>name e. map_of l name = Some e \<longrightarrow> name = ''tmp'' \<or> length name = 64)"






section \<open>Properties\<close>

subsection \<open>configure\<close>

lemma dict_update_seq_ok:
  "\<forall>repo \<in> set rs. CHR '':'' \<in> set repo \<Longrightarrow>
   dict_update_seq i d (map (split1 CHR '':'') rs) =
     Inr (foldl (\<lambda>d (k, v). AList.update k v d) d (map split_at_first_colon rs))"
  by (induction rs arbitrary: i d) (auto simp: split1_def split_at_first_colon_def)

lemma dict_update_seq_bad:
  "\<exists>repo \<in> set rs. CHR '':'' \<notin> set repo \<Longrightarrow>
   dict_update_seq i d (map (split1 CHR '':'') rs) =
     Inl (ValueError (DictUpdateLength (i + length (takeWhile (\<lambda>r. CHR '':'' \<in> set r) rs)) 1))"
  by (induction rs arbitrary: i d) (auto simp: split1_def)

lemma first_without_colon:
  "\<exists>repo \<in> set rs. CHR '':'' \<notin> set repo \<Longrightarrow>
   length (takeWhile (\<lambda>r. CHR '':'' \<in> set r) rs) < length rs \<and>
   CHR '':'' \<notin> set (rs ! length (takeWhile (\<lambda>r. CHR '':'' \<in> set r) rs))"
  by (induction rs) auto

lemma split_at_first_colon_parts:
  assumes "CHR '':'' \<in> set repo" and "split_at_first_colon repo = (k, v)"
  shows "repo = k @ CHR '':'' # v \<and> CHR '':'' \<notin> set k"
proof -
  let ?P = "\<lambda>c. c \<noteq> CHR '':''"
  have k: "k = takeWhile ?P repo" and v: "v = tl (dropWhile ?P repo)"
    using assms(2) by (auto simp: split_at_first_colon_def)
  have ne: "dropWhile ?P repo \<noteq> []" using assms(1) by (simp add: dropWhile_eq_Nil_conv)
  then have "hd (dropWhile ?P repo) = CHR '':''" using hd_dropWhile[of ?P repo] by simp
  with ne have "dropWhile ?P repo = CHR '':'' # v" using v by (cases "dropWhile ?P repo") auto
  then have "repo = k @ CHR '':'' # v" using takeWhile_dropWhile_id[of ?P repo] k by simp
  moreover have "CHR '':'' \<notin> set k" using k by (auto dest: set_takeWhileD)
  ultimately show ?thesis by simp
qed

text \<open>
  C10. \<^verbatim>\<open>configure\<close> splits every entry of \<^verbatim>\<open>image-names\<close> at its first colon only and
  builds the dictionary from the pairs (part before, part after); the part before holds
  no colon, so \<^verbatim>\<open>repo:tag:extra\<close> maps \<^verbatim>\<open>repo\<close> to \<^verbatim>\<open>tag:extra\<close>. When an entry has
  no colon, \<^verbatim>\<open>configure\<close> itself ends in the \<^verbatim>\<open>ValueError\<close> of the dictionary
  construction, for the first such entry, and loading the element ends in that error:
  \<^verbatim>\<open>preflight\<close> is not reached.
\<close>

theorem configure_image_names:
  "((\<forall>repo \<in> set (image_names n). CHR '':'' \<in> set repo) \<longrightarrow>
      (\<exists>self. configure utcnow n = Inr self \<and>
         self_image_names self = dict_of (map split_at_first_colon (image_names n))))
   \<and> ((\<exists>repo \<in> set (image_names n). CHR '':'' \<notin> set repo) \<longrightarrow>
      (\<exists>i < length (image_names n). CHR '':'' \<notin> set (image_names n ! i) \<and>
         configure utcnow n = Inl (ValueError (DictUpdateLength i 1)) \<and>
         load_element utcnow n build_deps = Inl (ValueError (DictUpdateLength i 1))))
   \<and> (\<forall>repo k v. CHR '':'' \<in> set repo \<longrightarrow> split_at_first_colon repo = (k, v) \<longrightarrow>
         repo = k @ CHR '':'' # v \<and> CHR '':'' \<notin> set k)"
proof (intro conjI impI allI)
  assume "\<forall>repo \<in> set (image_names n). CHR '':'' \<in> set repo"
  then show "\<exists>self. configure utcnow n = Inr self \<and>
         self_image_names self = dict_of (map split_at_first_colon (image_names n))"
    by (simp add: configure_def py_dict_def dict_update_seq_ok dict_of_def Let_def)
next
  assume bad: "\<exists>repo \<in> set (image_names n). CHR '':'' \<notin> set repo"
  let ?i = "length (takeWhile (\<lambda>r. CHR '':'' \<in> set r) (image_names n))"
  have "configure utcnow n = Inl (ValueError (DictUpdateLength ?i 1))"
    using dict_update_seq_bad[OF bad, of 0 "[]"] by (simp add: configure_def py_dict_def Let_def)
  moreover from this have "load_element utcnow n build_deps = Inl (ValueError (DictUpdateLength ?i 1))"
    by (simp add: load_element_def)
  ultimately show "\<exists>i < length (image_names n). CHR '':'' \<notin> set (image_names n ! i) \<and>
         configure utcnow n = Inl (ValueError (DictUpdateLength i 1)) \<and>
         load_element utcnow n build_deps = Inl (ValueError (DictUpdateLength i 1))"
    using first_without_colon[OF bad] by blast
next
  fix repo k v
  assume "CHR '':'' \<in> set repo" "split_at_first_colon repo = (k, v)"
  then show "repo = k @ CHR '':'' # v" "CHR '':'' \<notin> set k"
    using split_at_first_colon_parts by blast+
qed

text \<open>The two cases on examples.\<close>

theorem configure_image_names_witness:
  "(\<exists>self. configure ''2019-07-01T12:00:00'' (example_node [] [''repo:tag:extra'']) = Inr self \<and>
      self_image_names self = [(''repo'', ''tag:extra'')])
   \<and> load_element ''2019-07-01T12:00:00'' (example_node [] [''repo:tag'', ''repo'']) [True]
       = Inl (ValueError (DictUpdateLength 1 1))"
proof -
  let ?t = "''2019-07-01T12:00:00''"
  have all: "\<forall>repo \<in> set (image_names (example_node [] [''repo:tag:extra''])). CHR '':'' \<in> set repo"
    by (simp add: example_node_def)
  have ex: "\<exists>repo \<in> set (image_names (example_node [] [''repo:tag'', ''repo''])). CHR '':'' \<notin> set repo"
    by (simp add: example_node_def)
  from configure_image_names[of "example_node [] [''repo:tag:extra'']" ?t] all
  obtain self where "configure ?t (example_node [] [''repo:tag:extra'']) = Inr self"
    and "self_image_names self = dict_of (map split_at_first_colon (image_names (example_node [] [''repo:tag:extra''])))"
    by blast
  then have a: "\<exists>self. configure ?t (example_node [] [''repo:tag:extra'']) = Inr self \<and>
      self_image_names self = [(''repo'', ''tag:extra'')]"
    by (simp add: example_node_def dict_of_def split_at_first_colon_def)
  from configure_image_names[of "example_node [] [''repo:tag'', ''repo'']" ?t "[True]"] ex
  obtain i where i: "i < length (image_names (example_node [] [''repo:tag'', ''repo'']))"
    "CHR '':'' \<notin> set (image_names (example_node [] [''repo:tag'', ''repo'']) ! i)"
    "load_element ?t (example_node [] [''repo:tag'', ''repo'']) [True] = Inl (ValueError (DictUpdateLength i 1))"
    by blast
  from i(1,2) have "i = 1"
    by (cases i) (auto simp: example_node_def)
  with i(3) a show ?thesis by simp
qed

subsection \<open>preflight\<close>

lemma port_number_no_slash: "CHR ''/'' \<notin> set port \<Longrightarrow> port_number port = port"
  by (auto simp: port_number_def takeWhile_eq_all_conv)

lemma py_int_Inl: "py_int s = Inl e \<Longrightarrow> e = ValueError (InvalidIntLiteral s)"
  by (auto simp: py_int_def Let_def split: option.splits)

lemma check_port_number_Inl:
  assumes "(case py_int p of
              Inl e \<Rightarrow> Inl e
            | Inr v \<Rightarrow>
                if v > 65535 \<or> v < 0
                then Inl (ElementError (InvalidPortNumber p) ''docker-port-out-out-of-range'')
                else Inr ()) = Inl e"
  shows "(py_int p = Inl e \<and> e = ValueError (InvalidIntLiteral p))
         \<or> ((case py_int p of Inl _ \<Rightarrow> False | Inr v \<Rightarrow> v > 65535 \<or> v < 0) \<and>
             e = ElementError (InvalidPortNumber p) ''docker-port-out-out-of-range'')"
proof (cases "py_int p")
  case (Inl e')
  with assms py_int_Inl[OF Inl] show ?thesis by simp
next
  case (Inr v)
  with assms show ?thesis by (simp split: if_splits)
qed

lemma check_port_slash:
  assumes "CHR ''/'' \<in> set port"
  shows "check_port port =
     (if port_suffix port \<notin> set port_options
      then Inl (ElementError (InvalidPortOption (port_suffix port)) ''docker-invalid-port-option'')
      else (case py_int (port_number port) of
              Inl e \<Rightarrow> Inl e
            | Inr v \<Rightarrow>
                if v > 65535 \<or> v < 0
                then Inl (ElementError (InvalidPortNumber (port_number port)) ''docker-port-out-out-of-range'')
                else Inr ()))"
  using assms unfolding check_port_def port_suffix_def port_number_def Let_def by simp

lemma check_port_no_slash:
  assumes "CHR ''/'' \<notin> set port"
  shows "check_port port =
     (case py_int (port_number port) of
        Inl e \<Rightarrow> Inl e
      | Inr v \<Rightarrow>
          if v > 65535 \<or> v < 0
          then Inl (ElementError (InvalidPortNumber (port_number port)) ''docker-port-out-out-of-range'')
          else Inr ())"
  using assms unfolding check_port_def Let_def port_number_no_slash[OF assms] by simp

lemma check_port_Inl:
  assumes "check_port port = Inl e"
  shows "(unsupported_protocol port \<and>
            e = ElementError (InvalidPortOption (port_suffix port)) ''docker-invalid-port-option'')
         \<or> (py_int (port_number port) = Inl e \<and> e = ValueError (InvalidIntLiteral (port_number port)))
         \<or> (out_of_range port \<and>
            e = ElementError (InvalidPortNumber (port_number port)) ''docker-port-out-out-of-range'')"
proof (cases "CHR ''/'' \<in> set port")
  case True
  show ?thesis
  proof (cases "port_suffix port \<in> set port_options")
    case False
    with True assms show ?thesis
      by (simp add: check_port_slash unsupported_protocol_def)
  next
    case opt: True
    with True assms check_port_number_Inl[of "port_number port" e] show ?thesis
      by (simp add: check_port_slash out_of_range_def)
  qed
next
  case False
  with assms check_port_number_Inl[of "port_number port" e] show ?thesis
    by (simp add: check_port_no_slash out_of_range_def)
qed

lemma check_port_invalid:
  assumes "out_of_range port \<or> unsupported_protocol port"
  shows "\<exists>e. check_port port = Inl e"
proof (cases "CHR ''/'' \<in> set port")
  case True
  then show ?thesis using assms
    by (cases "py_int (port_number port)")
       (auto simp: check_port_slash out_of_range_def unsupported_protocol_def)
next
  case False
  then show ?thesis using assms
    by (cases "py_int (port_number port)")
       (auto simp: check_port_no_slash out_of_range_def unsupported_protocol_def)
qed

lemma check_ports_Inl:
  "check_ports ports = Inl e \<Longrightarrow> \<exists>port \<in> set ports. check_port port = Inl e"
  by (induction ports) (auto split: sum.splits)

lemma check_ports_invalid:
  "\<exists>port \<in> set ports. out_of_range port \<or> unsupported_protocol port \<Longrightarrow> \<exists>e. check_ports ports = Inl e"
proof (induction ports)
  case Nil
  then show ?case by simp
next
  case (Cons p ps)
  show ?case
  proof (cases "check_port p")
    case (Inl e)
    then show ?thesis by simp
  next
    case (Inr u)
    with check_port_invalid[of p] have "\<not> (out_of_range p \<or> unsupported_protocol p)" by auto
    with Cons Inr show ?thesis by auto
  qed
qed

lemma check_image_names_Inl:
  "check_image_names names = Inl e \<Longrightarrow>
   \<exists>name \<in> set names. malformed_name name \<and>
      e = ElementError (InvalidImageName name) ''docker-bdepend-wrong-count''"
  by (induction names) (auto simp: malformed_name_def split: if_splits)

lemma check_image_names_invalid:
  "\<exists>name \<in> set names. malformed_name name \<Longrightarrow> \<exists>e. check_image_names names = Inl e"
  by (induction names) (auto simp: malformed_name_def)

lemma build_element_preflight_error:
  assumes "configure utcnow n = Inr self" and "preflight self build_deps = Inl e"
  shows "build_element utcnow n L run_deps stage_artifact build_deps = (Inl e, empty_sandbox)"
  using assms by (simp add: build_element_def load_element_def)

lemma check_port_offending:
  assumes "offending_port port"
  shows "\<exists>reason. check_port port = Inl (ElementError (port_message port) reason)"
proof (cases "unsupported_protocol port")
  case True
  then show ?thesis
    by (simp add: check_port_slash unsupported_protocol_def port_message_def)
next
  case False
  with assms have oor: "out_of_range port" by (simp add: offending_port_def)
  then obtain v where v: "py_int (port_number port) = Inr v" "v > 65535 \<or> v < 0"
    by (auto simp: out_of_range_def split: sum.splits)
  show ?thesis
  proof (cases "CHR ''/'' \<in> set port")
    case True
    with False have "port_suffix port \<in> set port_options" by (simp add: unsupported_protocol_def)
    with True v False show ?thesis by (simp add: check_port_slash port_message_def)
  next
    case no: False
    with v False show ?thesis by (simp add: check_port_no_slash port_message_def)
  qed
qed

lemma check_port_passes:
  assumes "\<not> offending_port port" and "int_literal (port_number port)"
  shows "check_port port = Inr ()"
proof -
  from assms(2) obtain v where v: "py_int (port_number port) = Inr v"
    by (auto simp: int_literal_def split: sum.splits)
  with assms(1) have range: "\<not> (v > 65535 \<or> v < 0)"
    by (simp add: offending_port_def out_of_range_def)
  show ?thesis
  proof (cases "CHR ''/'' \<in> set port")
    case True
    with assms(1) have "port_suffix port \<in> set port_options"
      by (simp add: offending_port_def unsupported_protocol_def)
    with True v range show ?thesis by (simp add: check_port_slash)
  next
    case False
    with v range show ?thesis by (simp add: check_port_no_slash)
  qed
qed

lemma check_ports_first_offending:
  assumes "\<forall>port \<in> set (takeWhile (\<lambda>port. \<not> offending_port port) ports). int_literal (port_number port)"
  shows "(case find offending_port ports of
            Some port \<Rightarrow> \<exists>reason. check_ports ports = Inl (ElementError (port_message port) reason)
          | None \<Rightarrow> check_ports ports = Inr ())"
  using assms
proof (induction ports)
  case Nil
  show ?case by simp
next
  case (Cons p ps)
  show ?case
  proof (cases "offending_port p")
    case True
    from check_port_offending[OF True] show ?thesis using True by auto
  next
    case False
    with Cons.prems have "int_literal (port_number p)" by simp
    from check_port_passes[OF False this] Cons False show ?thesis
      by (cases "find offending_port ps") auto
  qed
qed

lemma check_image_names_first_malformed:
  "check_image_names names =
     (case find malformed_name names of
        Some name \<Rightarrow> Inl (ElementError (InvalidImageName name) ''docker-bdepend-wrong-count'')
      | None \<Rightarrow> Inr ())"
  by (induction names) (simp_all add: malformed_name_def)

lemma find_None_set: "find P xs = None \<Longrightarrow> \<forall>x \<in> set xs. \<not> P x"
  by (simp add: find_None_iff)

lemma preflight_first_offending:
  assumes "invalid_config self" and "numeric_ports self"
    and "build_deps \<noteq> [] \<or> (\<exists>port \<in> set (map fst (self_exposed_ports self)). offending_port port)"
    and "preflight self build_deps = Inl e"
  shows "first_offending_value self \<noteq> None \<and> reported e = first_offending_value self"
proof -
  let ?ports = "map fst (self_exposed_ports self)"
  let ?names = "map fst (self_image_names self)"
  note P = check_ports_first_offending[OF assms(2)[unfolded numeric_ports_def]]
  show ?thesis
  proof (cases "find offending_port ?ports")
    case (Some port)
    with P obtain reason where "check_ports ?ports = Inl (ElementError (port_message port) reason)"
      by auto
    with assms(4) have "e = ElementError (port_message port) reason" by (simp add: preflight_def)
    with Some show ?thesis by (simp add: first_offending_value_def reported_def)
  next
    case None
    with P have ok: "check_ports ?ports = Inr ()" by simp
    from find_None_set[OF None] have none: "\<forall>port \<in> set ?ports. \<not> offending_port port" .
    with assms(3) have "build_deps \<noteq> []" by blast
    then have len: "\<not> length build_deps < 1" by (cases build_deps) auto
    from none assms(1) have "\<exists>name \<in> set ?names. malformed_name name"
      unfolding invalid_config_def offending_port_def by blast
    then obtain name where name: "find malformed_name ?names = Some name"
      by (cases "find malformed_name ?names") (auto simp: find_None_iff)
    with ok len assms(4) have "e = ElementError (InvalidImageName name) ''docker-bdepend-wrong-count''"
      by (simp add: preflight_def check_image_names_first_malformed)
    with None name show ?thesis by (simp add: first_offending_value_def reported_def)
  qed
qed

lemma preflight_invalid_raises:
  assumes "invalid_config self"
  shows "\<exists>e. preflight self build_deps = Inl e"
proof (cases "check_ports (map fst (self_exposed_ports self))")
  case (Inl e)
  then show ?thesis by (simp add: preflight_def)
next
  case (Inr u)
  with check_ports_invalid[of "map fst (self_exposed_ports self)"] assms
  have "\<exists>name \<in> set (map fst (self_image_names self)). malformed_name name"
    unfolding invalid_config_def by auto
  from check_image_names_invalid[OF this] Inr show ?thesis
    by (auto simp: preflight_def)
qed

text \<open>
  C8 (as amended). When the element \<^verbatim>\<open>configure\<close> has built holds an exposed port whose
  number is out of range or whose protocol is neither \<^verbatim>\<open>tcp\<close> nor \<^verbatim>\<open>udp\<close>, or an
  image name the repository syntax does not match, \<^verbatim>\<open>preflight\<close> raises, and the build
  ends with that error in the untouched sandbox: nothing is staged, archived or hashed.
  The error is an \<^verbatim>\<open>ElementError\<close> whose message carries the first offending value in
  checking order (the ports in their order, the protocol of a port before its number,
  then the image names), provided that every port checked before that value has a number
  \<^verbatim>\<open>int()\<close> accepts and, when no port offends, that the element has at least one direct
  build dependency.
\<close>

theorem preflight_rejects_invalid_config:
  assumes "configure utcnow n = Inr self" and "invalid_config self"
  shows "\<exists>e. preflight self build_deps = Inl e \<and>
           build_element utcnow n L run_deps stage_artifact build_deps = (Inl e, empty_sandbox) \<and>
           (numeric_ports self \<longrightarrow>
            (build_deps \<noteq> [] \<or> (\<exists>port \<in> set (map fst (self_exposed_ports self)). offending_port port)) \<longrightarrow>
              first_offending_value self \<noteq> None \<and> reported e = first_offending_value self)"
proof -
  from preflight_invalid_raises[OF assms(2), of build_deps]
  obtain e where e: "preflight self build_deps = Inl e" ..
  have "build_element utcnow n L run_deps stage_artifact build_deps = (Inl e, empty_sandbox)"
    by (rule build_element_preflight_error[OF assms(1) e])
  with e preflight_first_offending[OF assms(2) _ _ e] show ?thesis by blast
qed

text \<open>
  C9 (as amended). Without a direct build dependency \<^verbatim>\<open>preflight\<close> raises and the build
  ends with that error in the untouched sandbox: no layer, configuration, manifest or
  archive exists. The error is the one about the missing build dependency, with the
  reason \<^verbatim>\<open>docker-bdepend-wrong-count\<close>, whenever the exposed ports pass their check,
  which comes first. With at least one direct build dependency that error is not raised.
\<close>

theorem preflight_build_dependency_count:
  assumes "configure utcnow n = Inr self"
  shows "(build_deps = [] \<longrightarrow>
           (\<exists>e. preflight self build_deps = Inl e \<and>
              build_element utcnow n L run_deps stage_artifact build_deps = (Inl e, empty_sandbox) \<and>
              (check_ports (map fst (self_exposed_ports self)) = Inr () \<longrightarrow>
                 e = ElementError MissingBuildDependency ''docker-bdepend-wrong-count'')))
         \<and> (build_deps \<noteq> [] \<longrightarrow>
           (\<forall>reason. preflight self build_deps \<noteq> Inl (ElementError MissingBuildDependency reason)))"
proof (intro conjI impI)
  assume empty: "build_deps = []"
  have "\<exists>e. preflight self build_deps = Inl e \<and>
      (check_ports (map fst (self_exposed_ports self)) = Inr () \<longrightarrow>
         e = ElementError MissingBuildDependency ''docker-bdepend-wrong-count'')"
    using empty by (cases "check_ports (map fst (self_exposed_ports self))") (auto simp: preflight_def)
  then show "\<exists>e. preflight self build_deps = Inl e \<and>
              build_element utcnow n L run_deps stage_artifact build_deps = (Inl e, empty_sandbox) \<and>
              (check_ports (map fst (self_exposed_ports self)) = Inr () \<longrightarrow>
                 e = ElementError MissingBuildDependency ''docker-bdepend-wrong-count'')"
    using build_element_preflight_error[OF assms] by blast
next
  assume ne: "build_deps \<noteq> []"
  then have len: "\<not> length build_deps < 1" by (cases build_deps) auto
  show "\<forall>reason. preflight self build_deps \<noteq> Inl (ElementError MissingBuildDependency reason)"
  proof (intro allI notI)
    fix reason
    assume p: "preflight self build_deps = Inl (ElementError MissingBuildDependency reason)"
    show False
    proof (cases "check_ports (map fst (self_exposed_ports self))")
      case (Inl e)
      with p have "e = ElementError MissingBuildDependency reason" by (simp add: preflight_def)
      with check_ports_Inl[OF Inl] show False by (auto dest!: check_port_Inl)
    next
      case (Inr u)
      with p len have "check_image_names (map fst (self_image_names self)) =
          Inl (ElementError MissingBuildDependency reason)"
        by (simp add: preflight_def)
      from check_image_names_Inl[OF this] show False by auto
    qed
  qed
qed


lemma configure_example:
  "configure example_time (example_node [''70000''] [''repo:tag'']) =
     Inr (example_element [''70000''] [(''repo'', ''tag'')])"
  "configure example_time (example_node [] [''Bad:tag'']) = Inr (example_element [] [(''Bad'', ''tag'')])"
  "configure example_time (example_node [''8080/tcp''] [''repo:tag'']) =
     Inr (example_element [''8080/tcp''] [(''repo'', ''tag'')])"
  by (simp_all add: configure_def example_node_def example_element_def example_time_def
      py_dict_def split1_def dict_of_def node_get_member_def)

lemma example_ports:
  "out_of_range ''70000''" "\<not> unsupported_protocol ''70000''"
  "\<not> out_of_range ''abc''" "\<not> unsupported_protocol ''abc''" "\<not> int_literal (port_number ''abc'')"
  "check_port ''abc'' = Inl (ValueError (InvalidIntLiteral ''abc''))"
  "\<not> out_of_range ''8080/tcp''" "\<not> unsupported_protocol ''8080/tcp''"
  "int_literal (port_number ''8080/tcp'')"
  by (simp_all add: out_of_range_def unsupported_protocol_def int_literal_def port_number_def
      port_suffix_def check_port_def port_options_def py_int_def strip_def
      is_space_def parse_unsigned_def is_digit_def digit_val_def)

lemma example_names: "malformed_name ''Bad''" "\<not> malformed_name ''repo''"
  unfolding malformed_name_def by code_simp+

lemma configure_example_ports:
  "configure example_time (example_node [''abc'', ''70000''] [''repo:tag'']) =
     Inr (example_element [''abc'', ''70000''] [(''repo'', ''tag'')])"
  "configure example_time (example_node [''8080/tcp'', ''70000'', ''abc''] [''Bad:tag'']) =
     Inr (example_element [''8080/tcp'', ''70000'', ''abc''] [(''Bad'', ''tag'')])"
  by (simp_all add: configure_def example_node_def example_element_def example_time_def
      py_dict_def split1_def dict_of_def node_get_member_def)

text \<open>
  The claim as first stated fails in two ways. For the malformed image name \<^verbatim>\<open>Bad\<close>
  and no build dependency, the error raised is the one about the missing build
  dependency, which carries no value of the configuration. For the ports \<^verbatim>\<open>abc\<close> and
  \<^verbatim>\<open>70000\<close> and one build dependency, \<^verbatim>\<open>preflight\<close> ends in the \<^verbatim>\<open>ValueError\<close> that
  \<^verbatim>\<open>int('abc')\<close> raises: no \<^verbatim>\<open>ElementError\<close> is raised and the port out of range is
  not reported.
\<close>

theorem preflight_rejects_invalid_config_counterexample:
  "configure example_time (example_node [] [''Bad:tag'']) = Inr (example_element [] [(''Bad'', ''tag'')])
   \<and> invalid_config (example_element [] [(''Bad'', ''tag'')])
   \<and> first_offending_value (example_element [] [(''Bad'', ''tag'')]) = Some (InvalidImageName ''Bad'')
   \<and> preflight (example_element [] [(''Bad'', ''tag'')]) ([] :: bool list)
       = Inl (ElementError MissingBuildDependency ''docker-bdepend-wrong-count'')
   \<and> configure example_time (example_node [''abc'', ''70000''] [''repo:tag'']) =
       Inr (example_element [''abc'', ''70000''] [(''repo'', ''tag'')])
   \<and> invalid_config (example_element [''abc'', ''70000''] [(''repo'', ''tag'')])
   \<and> first_offending_value (example_element [''abc'', ''70000''] [(''repo'', ''tag'')])
       = Some (InvalidPortNumber ''70000'')
   \<and> preflight (example_element [''abc'', ''70000''] [(''repo'', ''tag'')]) [True]
       = Inl (ValueError (InvalidIntLiteral ''abc''))"
proof -
  let ?bad = "example_element [] [(''Bad'', ''tag'')]"
  let ?abc = "example_element [''abc'', ''70000''] [(''repo'', ''tag'')]"
  have a1: "invalid_config ?bad"
    using example_names(1) by (simp add: invalid_config_def example_element_def)
  have a2: "first_offending_value ?bad = Some (InvalidImageName ''Bad'')"
    using example_names(1) by (simp add: first_offending_value_def example_element_def)
  have a3: "preflight ?bad ([] :: bool list)
       = Inl (ElementError MissingBuildDependency ''docker-bdepend-wrong-count'')"
    by (simp add: preflight_def example_element_def)
  have b1: "invalid_config ?abc"
    using example_ports(1) by (simp add: invalid_config_def example_element_def)
  have b2: "first_offending_value ?abc = Some (InvalidPortNumber ''70000'')"
    using example_ports(1-4)
    by (simp add: first_offending_value_def example_element_def offending_port_def port_message_def
        port_number_def)
  have b3: "preflight ?abc [True] = Inl (ValueError (InvalidIntLiteral ''abc''))"
    using example_ports(6) by (simp add: preflight_def example_element_def)
  from a1 a2 a3 b1 b2 b3 configure_example(2) configure_example_ports(1) show ?thesis by simp
qed

text \<open>
  The ports \<^verbatim>\<open>8080/tcp\<close>, \<^verbatim>\<open>70000\<close> and \<^verbatim>\<open>abc\<close> with the image name \<^verbatim>\<open>Bad\<close> and
  no build dependency: the error reports the port \<^verbatim>\<open>70000\<close>, the first value that
  fails its check.
\<close>

theorem preflight_rejects_invalid_config_witness:
  "invalid_config (example_element [''8080/tcp'', ''70000'', ''abc''] [(''Bad'', ''tag'')])
   \<and> numeric_ports (example_element [''8080/tcp'', ''70000'', ''abc''] [(''Bad'', ''tag'')])
   \<and> (\<exists>reason.
        build_element example_time (example_node [''8080/tcp'', ''70000'', ''abc''] [''Bad:tag''])
          example_libs (\<lambda>e. []) (\<lambda>e dir. dir) ([] :: bool list)
        = (Inl (ElementError (InvalidPortNumber ''70000'') reason), empty_sandbox))"
proof -
  let ?self = "example_element [''8080/tcp'', ''70000'', ''abc''] [(''Bad'', ''tag'')]"
  have ports: "map fst (self_exposed_ports ?self) = [''8080/tcp'', ''70000'', ''abc'']"
    by (simp add: example_element_def)
  have off: "\<not> offending_port ''8080/tcp''" "offending_port ''70000''"
    using example_ports by (simp_all add: offending_port_def)
  have inv: "invalid_config ?self"
    using example_ports(1) by (simp add: invalid_config_def example_element_def)
  have num: "numeric_ports ?self"
    unfolding numeric_ports_def ports using off example_ports(9) by simp
  have some: "\<exists>port \<in> set (map fst (self_exposed_ports ?self)). offending_port port"
    unfolding ports using off by simp
  have first: "first_offending_value ?self = Some (InvalidPortNumber ''70000'')"
    unfolding first_offending_value_def ports using off example_ports(2)
    by (simp add: port_message_def port_number_def)
  from preflight_rejects_invalid_config[OF configure_example_ports(2) inv,
      of "[] :: bool list" example_libs "\<lambda>e. []" "\<lambda>e dir. dir"] num some first
  obtain e where e:
    "build_element example_time (example_node [''8080/tcp'', ''70000'', ''abc''] [''Bad:tag''])
       example_libs (\<lambda>e. []) (\<lambda>e dir. dir) ([] :: bool list) = (Inl e, empty_sandbox)"
    "reported e = Some (InvalidPortNumber ''70000'')"
    by auto
  from e(2) obtain reason where "e = ElementError (InvalidPortNumber ''70000'') reason"
    by (cases e) (auto simp: reported_def)
  with e(1) inv num show ?thesis by blast
qed

text \<open>
  The claim as first stated fails when a port is invalid: with the port \<^verbatim>\<open>70000\<close> and no
  build dependency the error raised is the one about the port.
\<close>

theorem preflight_build_dependency_count_counterexample:
  "configure example_time (example_node [''70000''] [''repo:tag'']) =
     Inr (example_element [''70000''] [(''repo'', ''tag'')])
   \<and> preflight (example_element [''70000''] [(''repo'', ''tag'')]) ([] :: bool list)
       = Inl (ElementError (InvalidPortNumber ''70000'') ''docker-port-out-out-of-range'')"
proof -
  have "check_port ''70000'' = Inl (ElementError (InvalidPortNumber ''70000'') ''docker-port-out-out-of-range'')"
    by (simp add: out_of_range_def port_number_def check_port_def port_options_def py_int_def strip_def
        is_space_def parse_unsigned_def is_digit_def digit_val_def)
  then have "preflight (example_element [''70000''] [(''repo'', ''tag'')]) ([] :: bool list)
       = Inl (ElementError (InvalidPortNumber ''70000'') ''docker-port-out-out-of-range'')"
    by (simp add: preflight_def example_element_def)
  then show ?thesis using configure_example(1) by simp
qed

text \<open>A valid configuration without a build dependency, and with one.\<close>

theorem preflight_build_dependency_count_witness:
  "build_element example_time (example_node [''8080/tcp''] [''repo:tag'']) example_libs
        (\<lambda>e. []) (\<lambda>e dir. dir) ([] :: bool list)
       = (Inl (ElementError MissingBuildDependency ''docker-bdepend-wrong-count''), empty_sandbox)
   \<and> preflight (example_element [''8080/tcp''] [(''repo'', ''tag'')]) [True] = Inr ()"
proof -
  let ?self = "example_element [''8080/tcp''] [(''repo'', ''tag'')]"
  have port: "check_port ''8080/tcp'' = Inr ()"
    by (simp add: out_of_range_def port_number_def check_port_def port_options_def py_int_def strip_def
        is_space_def parse_unsigned_def is_digit_def digit_val_def)
  then have ports: "check_ports (map fst (self_exposed_ports ?self)) = Inr ()"
    by (simp add: example_element_def)
  have "fullmatch repository_syntax ''repo''" by code_simp
  with port have ok: "preflight ?self [True] = Inr ()"
    by (simp add: preflight_def example_element_def)
  from preflight_build_dependency_count[OF configure_example(3),
      of "[] :: bool list" example_libs "\<lambda>e. []" "\<lambda>e dir. dir"] ports
  have "build_element example_time (example_node [''8080/tcp''] [''repo:tag'']) example_libs
        (\<lambda>e. []) (\<lambda>e dir. dir) ([] :: bool list)
       = (Inl (ElementError MissingBuildDependency ''docker-bdepend-wrong-count''), empty_sandbox)"
    by auto
  with ok show ?thesis by simp
qed

subsection \<open>Staging\<close>

lemma staged_once_refl: "roots \<subseteq> fst s \<Longrightarrow> staged_once rd roots s s"
  by (simp add: staged_once_def)

lemma staged_once_trans:
  assumes "staged_once rd r1 s s1" and "staged_once rd r2 s1 s2"
  shows "staged_once rd (r1 \<union> r2) s s2"
proof -
  from assms(1) obtain n1 where n1: "snd s1 = snd s @ n1" "distinct n1" "set n1 = fst s1 - fst s"
    and a: "fst s \<subseteq> fst s1" "r1 \<subseteq> fst s1"
    and c1: "\<forall>x \<in> fst s1 - fst s. set (rd x) \<subseteq> fst s1 \<and> (\<exists>r \<in> r1. reaches rd r x)"
    unfolding staged_once_def by blast
  from assms(2) obtain n2 where n2: "snd s2 = snd s1 @ n2" "distinct n2" "set n2 = fst s2 - fst s1"
    and b: "fst s1 \<subseteq> fst s2" "r2 \<subseteq> fst s2"
    and c2: "\<forall>x \<in> fst s2 - fst s1. set (rd x) \<subseteq> fst s2 \<and> (\<exists>r \<in> r2. reaches rd r x)"
    unfolding staged_once_def by blast
  have new: "snd s2 = snd s @ (n1 @ n2)" using n1(1) n2(1) by simp
  have dist: "distinct (n1 @ n2)" using n1(2,3) n2(2,3) by auto
  have sets: "set (n1 @ n2) = fst s2 - fst s" using n1(3) n2(3) a(1) b(1) by auto
  have cl: "\<forall>x \<in> fst s2 - fst s. set (rd x) \<subseteq> fst s2 \<and> (\<exists>r \<in> r1 \<union> r2. reaches rd r x)"
  proof
    fix x assume x: "x \<in> fst s2 - fst s"
    show "set (rd x) \<subseteq> fst s2 \<and> (\<exists>r \<in> r1 \<union> r2. reaches rd r x)"
    proof (cases "x \<in> fst s1")
      case True
      with x c1 b(1) show ?thesis by blast
    next
      case False
      with x c2 show ?thesis by blast
    qed
  qed
  show ?thesis
    unfolding staged_once_def using a b new dist sets cl by blast
qed

lemma staged_once_element:
  assumes "element \<notin> visited"
    and "staged_once rd (set (rd element)) (insert element visited, staged) (visited', staged')"
  shows "staged_once rd {element} (visited, staged) (visited', staged' @ [element])"
proof -
  from assms(2) obtain new where new: "staged' = staged @ new" "distinct new"
      "set new = visited' - insert element visited"
    and sub: "insert element visited \<subseteq> visited'" "set (rd element) \<subseteq> visited'"
    and cl: "\<forall>x \<in> visited' - insert element visited.
        set (rd x) \<subseteq> visited' \<and> (\<exists>r \<in> set (rd element). reaches rd r x)"
    unfolding staged_once_def by auto
  have n1: "staged' @ [element] = staged @ (new @ [element])" using new(1) by simp
  have n2: "distinct (new @ [element])" using new(2,3) by auto
  have n3: "set (new @ [element]) = visited' - visited" using new(3) sub(1) assms(1) by auto
  have step: "\<And>r x. r \<in> set (rd element) \<Longrightarrow> reaches rd r x \<Longrightarrow> reaches rd element x"
    unfolding reaches_def run_edges_def by (auto intro: converse_rtrancl_into_rtrancl)
  have cl': "\<forall>x \<in> visited' - visited. set (rd x) \<subseteq> visited' \<and> (\<exists>r \<in> {element}. reaches rd r x)"
  proof
    fix x assume x: "x \<in> visited' - visited"
    show "set (rd x) \<subseteq> visited' \<and> (\<exists>r \<in> {element}. reaches rd r x)"
    proof (cases "x = element")
      case True
      then show ?thesis using sub(2) by (simp add: reaches_def)
    next
      case False
      with x cl step show ?thesis by blast
    qed
  qed
  show ?thesis
    unfolding staged_once_def using sub(1) n1 n2 n3 cl' by (simp; blast)
qed

lemma stage_layer_staged_once:
  "staged_once rd {e} s (stage_layer rd e s)"
  "staged_once rd (set ds) s (stage_layer_loop rd ds s)"
proof (induction rd e s and rd ds s rule: stage_layer_stage_layer_loop.induct)
  case (1 run_deps element visited staged)
  show ?case
  proof (cases "element \<in> visited")
    case True
    then show ?thesis by (simp add: staged_once_refl)
  next
    case False
    obtain visited' staged' where r:
      "stage_layer_loop run_deps (run_deps element) (insert element visited, staged) = (visited', staged')"
      by (cases "stage_layer_loop run_deps (run_deps element) (insert element visited, staged)")
    with 1[OF False] False staged_once_element[OF False, of run_deps staged visited' staged']
    show ?thesis by simp
  qed
next
  case (2 run_deps s)
  show ?case by (simp add: staged_once_refl)
next
  case (3 run_deps dependency rest s)
  from staged_once_trans[OF 3(1) 3(2)] show ?case by simp
qed

lemma stage_layer_closed:
  assumes "closed_under rd visited" and "stage_layer rd d (visited, []) = (visited', staged)"
  shows "closed_under rd visited'" and "distinct staged"
    and "set staged = {c. reaches rd d c} - visited"
    and "visited' = visited \<union> {c. reaches rd d c}"
proof -
  from stage_layer_staged_once(1)[of rd d "(visited, [])"] assms(2)
  have so: "staged_once rd {d} (visited, []) (visited', staged)" by simp
  then have sub: "visited \<subseteq> visited'" and d: "d \<in> visited'"
    and st: "distinct staged" "set staged = visited' - visited"
    and cl: "\<forall>x \<in> visited' - visited. set (rd x) \<subseteq> visited' \<and> reaches rd d x"
    unfolding staged_once_def by auto
  show closed: "closed_under rd visited'"
    unfolding closed_under_def
  proof
    fix x assume "x \<in> visited'"
    then show "set (rd x) \<subseteq> visited'"
      using assms(1) sub cl unfolding closed_under_def by (cases "x \<in> visited") blast+
  qed
  have reach: "c \<in> visited'" if "reaches rd d c" for c
    using that unfolding reaches_def
  proof (induction rule: rtrancl_induct)
    case base
    show ?case by (rule d)
  next
    case (step y z)
    then show ?case using closed unfolding closed_under_def run_edges_def by auto
  qed
  show "distinct staged" by (rule st(1))
  show v: "visited' = visited \<union> {c. reaches rd d c}"
    using sub cl reach by blast
  show "set staged = {c. reaches rd d c} - visited"
    using st(2) v by blast
qed

lemma stage_layers_from_layers:
  assumes "closed_under rd visited"
  shows "map fst (stage_layers_from rd visited ds) = ds \<and>
         (\<forall>i < length ds.
            distinct (snd (stage_layers_from rd visited ds ! i)) \<and>
            set (snd (stage_layers_from rd visited ds ! i)) =
              {c. reaches rd (ds ! i) c \<and> c \<notin> visited \<and> (\<forall>j < i. \<not> reaches rd (ds ! j) c)})"
  using assms
proof (induction ds arbitrary: visited)
  case Nil
  show ?case by simp
next
  case (Cons d rest)
  obtain visited' staged where r: "stage_layer rd d (visited, []) = (visited', staged)"
    by (cases "stage_layer rd d (visited, [])")
  note sl = stage_layer_closed[OF Cons.prems r]
  note IH = Cons.IH[OF sl(1)]
  have res: "stage_layers_from rd visited (d # rest) = (d, staged) # stage_layers_from rd visited' rest"
    using r by simp
  show ?case
  proof (intro conjI allI impI)
    show "map fst (stage_layers_from rd visited (d # rest)) = d # rest"
      using res IH by simp
  next
    fix i assume i: "i < length (d # rest)"
    show "distinct (snd (stage_layers_from rd visited (d # rest) ! i))"
      using res IH sl(2) i by (cases i) auto
  next
    fix i assume i: "i < length (d # rest)"
    show "set (snd (stage_layers_from rd visited (d # rest) ! i)) =
      {c. reaches rd ((d # rest) ! i) c \<and> c \<notin> visited \<and> (\<forall>j < i. \<not> reaches rd ((d # rest) ! j) c)}"
    proof (cases i)
      case 0
      then show ?thesis using res sl(3) by auto
    next
      case (Suc k)
      with i have k: "k < length rest" by simp
      have "set (snd (stage_layers_from rd visited' rest ! k)) =
        {c. reaches rd (rest ! k) c \<and> c \<notin> visited' \<and> (\<forall>j < k. \<not> reaches rd (rest ! j) c)}"
        using IH k by blast
      also have "\<dots> = {c. reaches rd (rest ! k) c \<and> c \<notin> visited \<and>
          (\<forall>j < Suc k. \<not> reaches rd ((d # rest) ! j) c)}"
        unfolding sl(4) by (auto simp: less_Suc_eq_0_disj)
      finally show ?thesis using res Suc by simp
    qed
  qed
qed

lemma stage_layers_from_distinct:
  assumes "closed_under rd visited"
  shows "distinct (concat (map snd (stage_layers_from rd visited ds))) \<and>
         set (concat (map snd (stage_layers_from rd visited ds))) \<inter> visited = {}"
  using assms
proof (induction ds arbitrary: visited)
  case Nil
  show ?case by simp
next
  case (Cons d rest)
  obtain visited' staged where r: "stage_layer rd d (visited, []) = (visited', staged)"
    by (cases "stage_layer rd d (visited, [])")
  note sl = stage_layer_closed[OF Cons.prems r]
  note IH = Cons.IH[OF sl(1)]
  have "set staged \<subseteq> visited'" "visited \<subseteq> visited'" "set staged \<inter> visited = {}"
    using sl(3,4) by auto
  with IH sl(2) r show ?case by auto
qed

text \<open>
  C3 (as amended). An element \<open>c\<close> that some direct build dependency reaches over runtime
  edges is staged exactly once, into exactly one layer: the layer of the first build
  dependency, in declared order, that reaches it. So when \<open>c\<close> is reachable from two
  build dependencies and from none declared before them, it goes into the layer of the
  one declared first and into no other.
\<close>

theorem shared_dependency_staged_once:
  assumes "i < length build_deps"
    and "reaches run_deps (build_deps ! i) c"
    and "\<forall>j < i. \<not> reaches run_deps (build_deps ! j) c"
  shows "map fst (stage_layers run_deps build_deps) = build_deps \<and>
         (\<forall>k < length build_deps. c \<in> set (snd (stage_layers run_deps build_deps ! k)) \<longleftrightarrow> k = i) \<and>
         distinct (concat (map snd (stage_layers run_deps build_deps)))"
proof -
  have closed: "closed_under run_deps {}" by (simp add: closed_under_def)
  note L = stage_layers_from_layers[OF closed, of build_deps, folded stage_layers_def]
  have mem: "c \<in> set (snd (stage_layers run_deps build_deps ! k)) \<longleftrightarrow>
      reaches run_deps (build_deps ! k) c \<and> (\<forall>j < k. \<not> reaches run_deps (build_deps ! j) c)"
    if "k < length build_deps" for k
    using L that by auto
  have "c \<in> set (snd (stage_layers run_deps build_deps ! k)) \<longleftrightarrow> k = i"
    if k: "k < length build_deps" for k
  proof
    assume "c \<in> set (snd (stage_layers run_deps build_deps ! k))"
    with mem[OF k] have a: "reaches run_deps (build_deps ! k) c"
      and b: "\<forall>j < k. \<not> reaches run_deps (build_deps ! j) c" by auto
    show "k = i"
    proof (rule ccontr)
      assume "k \<noteq> i"
      then consider "k < i" | "i < k" by linarith
      then show False
        using a b assms(2,3) by cases auto
    qed
  next
    assume "k = i"
    then show "c \<in> set (snd (stage_layers run_deps build_deps ! k))"
      using mem[OF k] assms(2,3) by simp
  qed
  moreover have "distinct (concat (map snd (stage_layers run_deps build_deps)))"
    using stage_layers_from_distinct[OF closed, of build_deps] by (simp add: stage_layers_def)
  ultimately show ?thesis using L by blast
qed

lemma example_graph_reaches:
  "reaches example_graph ElemA ElemC" "reaches example_graph ElemB ElemC"
  "reaches example_graph ElemX ElemC"
  by (auto simp: reaches_def run_edges_def example_graph_def intro!: r_into_rtrancl)

text \<open>
  The claim as first stated names the layer of whichever of the two build dependencies
  comes first. With a third build dependency declared before both and reaching the
  shared element, the element is staged into the third one's layer and into neither
  of the two.
\<close>

theorem shared_dependency_staged_once_counterexample:
  "reaches example_graph ElemA ElemC \<and> reaches example_graph ElemB ElemC \<and>
   stage_layers example_graph [ElemX, ElemA, ElemB] =
     [(ElemX, [ElemC, ElemX]), (ElemA, [ElemA]), (ElemB, [ElemB])]"
  using example_graph_reaches by (simp add: stage_layers_def example_graph_def)

text \<open>The diamond of two build dependencies: the shared element is in the first layer only.\<close>

theorem shared_dependency_staged_once_witness:
  "ElemC \<in> set (snd (stage_layers example_graph [ElemA, ElemB] ! 0)) \<and>
   ElemC \<notin> set (snd (stage_layers example_graph [ElemA, ElemB] ! 1)) \<and>
   stage_layers example_graph [ElemA, ElemB] = [(ElemA, [ElemC, ElemA]), (ElemB, [ElemB])]"
proof -
  have "0 < length [ElemA, ElemB]" by simp
  moreover have "reaches example_graph ([ElemA, ElemB] ! 0) ElemC"
    using example_graph_reaches(1) by simp
  moreover have "\<forall>j < (0::nat). \<not> reaches example_graph ([ElemA, ElemB] ! j) ElemC" by simp
  ultimately have "\<forall>k < length [ElemA, ElemB].
      ElemC \<in> set (snd (stage_layers example_graph [ElemA, ElemB] ! k)) \<longleftrightarrow> k = 0"
    using shared_dependency_staged_once[of 0 "[ElemA, ElemB]" example_graph ElemC] by blast
  then have "ElemC \<in> set (snd (stage_layers example_graph [ElemA, ElemB] ! 0))"
    and "ElemC \<notin> set (snd (stage_layers example_graph [ElemA, ElemB] ! 1))"
    by auto
  moreover have "stage_layers example_graph [ElemA, ElemB] = [(ElemA, [ElemC, ElemA]), (ElemB, [ElemB])]"
    by (simp add: stage_layers_def example_graph_def)
  ultimately show ?thesis by blast
qed

subsection \<open>Archiving\<close>

lemma set_tar_headers_same_header:
  "same_header st1 st2 \<Longrightarrow>
   set_tar_headers (gettarinfo arcname st1 type linkname size') =
   set_tar_headers (gettarinfo arcname st2 type linkname size')"
  by (simp add: set_tar_headers_def gettarinfo_def same_header_def)

lemma table_update_corresponds:
  assumes "one_to_one R" and "R k1 k2" and "\<forall>a b. R a b \<longrightarrow> T1 a = T2 b"
  shows "\<forall>a b. R a b \<longrightarrow> (T1(k1 \<mapsto> v)) a = (T2(k2 \<mapsto> v)) b"
  using assms unfolding one_to_one_def by (metis fun_upd_apply)

lemma table_of_update:
  assumes "table_of T F" and "(arcname, st) \<in> F"
  shows "table_of (T((st_ino st, st_dev st) \<mapsto> arcname)) F"
  using assms unfolding table_of_def by (metis fun_upd_apply option.inject)

text \<open>A file found in the table under another name has more than one link.\<close>

lemma other_name_counted:
  assumes "counted_links F" and "table_of T F" and "(arcname, st) \<in> F"
    and "T (st_ino st, st_dev st) = Some q" and "q \<noteq> arcname"
  shows "st_nlink st > 1"
proof -
  from assms(2,4) obtain st' where "(q, st') \<in> F" "(st_ino st', st_dev st') = (st_ino st, st_dev st)"
    unfolding table_of_def by blast
  with assms(1,3,5) show ?thesis unfolding counted_links_def by blast
qed

lemma tar_add_regular_link:
  assumes "counted_links F" and "table_of T F" and "(arcname, st) \<in> F"
  shows "tar_add flt arcname (RegularFile st data) (T, members) =
     (if T (st_ino st, st_dev st) \<noteq> None \<and> T (st_ino st, st_dev st) \<noteq> Some arcname
      then (T, members @ [(flt (gettarinfo arcname st LNKTYPE (the (T (st_ino st, st_dev st))) 0), [])])
      else ((if st_ino st \<noteq> 0 then T((st_ino st, st_dev st) \<mapsto> arcname) else T),
            members @ [(flt (gettarinfo arcname st REGTYPE [] (length data)), data)]))"
proof (cases "T (st_ino st, st_dev st) \<noteq> None \<and> T (st_ino st, st_dev st) \<noteq> Some arcname")
  case True
  then obtain q where "T (st_ino st, st_dev st) = Some q" "q \<noteq> arcname" by auto
  from other_name_counted[OF assms this] have "st_nlink st > 1" .
  with True have c: "st_nlink st > 1 \<and> T (st_ino st, st_dev st) \<noteq> None \<and>
      T (st_ino st, st_dev st) \<noteq> Some arcname" by simp
  show ?thesis by (simp only: tar_add.simps(1) if_P[OF c] if_P[OF True])
next
  case False
  then have c: "\<not> (st_nlink st > 1 \<and> T (st_ino st, st_dev st) \<noteq> None \<and>
      T (st_ino st, st_dev st) \<noteq> Some arcname)" by simp
  show ?thesis by (simp only: tar_add.simps(1) if_not_P[OF c] if_not_P[OF False])
qed

lemma tar_add_regular_same:
  assumes R: "one_to_one R" and c1: "counted_links F1" and c2: "counted_links F2"
    and hdr: "same_header st1 st2" and links: "same_links R st1 st2"
    and f1: "(arcname, st1) \<in> F1" and f2: "(arcname, st2) \<in> F2"
    and cor: "corresponding R F1 F2 (T1, members1) (T2, members2)"
  shows "corresponding R F1 F2
           (tar_add set_tar_headers arcname (RegularFile st1 data) (T1, members1))
           (tar_add set_tar_headers arcname (RegularFile st2 data) (T2, members2))"
proof -
  let ?k1 = "(st_ino st1, st_dev st1)" and ?k2 = "(st_ino st2, st_dev st2)"
  from cor have tab: "\<forall>a b. R a b \<longrightarrow> T1 a = T2 b" and m: "members1 = members2"
    and t1: "table_of T1 F1" and t2: "table_of T2 F2"
    by (simp_all add: corresponding_def)
  from links have k: "R ?k1 ?k2" and zero: "(st_ino st1 = 0) = (st_ino st2 = 0)"
    by (simp_all add: same_links_def)
  from tab k have same: "T1 ?k1 = T2 ?k2" by blast
  note upd = table_update_corresponds[OF R k tab, of arcname]
  note h = set_tar_headers_same_header[OF hdr]
  note r1 = tar_add_regular_link[OF c1 t1 f1, of set_tar_headers data members1]
  note r2 = tar_add_regular_link[OF c2 t2 f2, of set_tar_headers data members2]
  show ?thesis
  proof (cases "T1 ?k1 \<noteq> None \<and> T1 ?k1 \<noteq> Some arcname")
    case True
    with same have l2: "T2 ?k2 \<noteq> None \<and> T2 ?k2 \<noteq> Some arcname" by simp
    have e1: "tar_add set_tar_headers arcname (RegularFile st1 data) (T1, members1) =
        (T1, members1 @ [(set_tar_headers (gettarinfo arcname st1 LNKTYPE (the (T1 ?k1)) 0), [])])"
      unfolding r1 by (rule if_P[OF True])
    have e2: "tar_add set_tar_headers arcname (RegularFile st2 data) (T2, members2) =
        (T2, members2 @ [(set_tar_headers (gettarinfo arcname st2 LNKTYPE (the (T2 ?k2)) 0), [])])"
      unfolding r2 by (rule if_P[OF l2])
    show ?thesis
      unfolding e1 e2 corresponding_def using tab same h m t1 t2 by simp
  next
    case False
    with same have n2: "\<not> (T2 ?k2 \<noteq> None \<and> T2 ?k2 \<noteq> Some arcname)" by simp
    have e1: "tar_add set_tar_headers arcname (RegularFile st1 data) (T1, members1) =
        ((if st_ino st1 \<noteq> 0 then T1(?k1 \<mapsto> arcname) else T1),
         members1 @ [(set_tar_headers (gettarinfo arcname st1 REGTYPE [] (length data)), data)])"
      unfolding r1 by (rule if_not_P[OF False])
    have e2: "tar_add set_tar_headers arcname (RegularFile st2 data) (T2, members2) =
        ((if st_ino st2 \<noteq> 0 then T2(?k2 \<mapsto> arcname) else T2),
         members2 @ [(set_tar_headers (gettarinfo arcname st2 REGTYPE [] (length data)), data)])"
      unfolding r2 by (rule if_not_P[OF n2])
    show ?thesis
    proof (cases "st_ino st1 = 0")
      case True
      with zero have "st_ino st2 = 0" by simp
      with True show ?thesis
        unfolding e1 e2 corresponding_def using tab h m t1 t2 by simp
    next
      case ne: False
      with zero have ne2: "st_ino st2 \<noteq> 0" by simp
      have u1: "table_of (T1(?k1 \<mapsto> arcname)) F1" by (rule table_of_update[OF t1 f1])
      have u2: "table_of (T2(?k2 \<mapsto> arcname)) F2" by (rule table_of_update[OF t2 f2])
      from ne ne2 show ?thesis
        unfolding e1 e2 corresponding_def using upd h m u1 u2 by simp
    qed
  qed
qed

lemma files_below_insort:
  "set (files_below arcname (insort_key fst e es)) =
   set (files_below arcname [e]) \<union> set (files_below arcname es)"
  by (induction es) (cases e, auto)+

lemma files_below_sort: "set (files_below arcname (sort_key fst es)) = set (files_below arcname es)"
proof (induction es)
  case Nil
  show ?case by simp
next
  case (Cons e es)
  then show ?case
    using files_below_insort[of arcname e "sort_key fst es"] by (cases e) auto
qed

lemma tar_add_same_tree:
  "one_to_one R \<Longrightarrow> counted_links F1 \<Longrightarrow> counted_links F2 \<Longrightarrow> same_tree R n1 n2 \<Longrightarrow>
     set (files_at arcname n1) \<subseteq> F1 \<Longrightarrow> set (files_at arcname n2) \<subseteq> F2 \<Longrightarrow>
     corresponding R F1 F2 s1 s2 \<Longrightarrow>
     corresponding R F1 F2 (tar_add set_tar_headers arcname n1 s1) (tar_add set_tar_headers arcname n2 s2)"
  "one_to_one R \<Longrightarrow> counted_links F1 \<Longrightarrow> counted_links F2 \<Longrightarrow> same_entries R es1 es2 \<Longrightarrow>
     set (files_below arcname es1) \<subseteq> F1 \<Longrightarrow> set (files_below arcname es2) \<subseteq> F2 \<Longrightarrow>
     corresponding R F1 F2 s1 s2 \<Longrightarrow>
     corresponding R F1 F2 (tar_add_children set_tar_headers arcname es1 s1)
       (tar_add_children set_tar_headers arcname es2 s2)"
proof (induction R n1 n2 and R es1 es2 arbitrary: s1 s2 arcname and s1 s2 arcname
    rule: same_tree_same_entries.induct)
  case (1 R st1 data1 st2 data2)
  obtain T1 m1 where s1: "s1 = (T1, m1)" by (cases s1)
  obtain T2 m2 where s2: "s2 = (T2, m2)" by (cases s2)
  from "1.prems"(4) have hdr: "same_header st1 st2" and links: "same_links R st1 st2"
    and d: "data1 = data2" by simp_all
  from "1.prems"(5,6) have f: "(arcname, st1) \<in> F1" "(arcname, st2) \<in> F2" by simp_all
  show ?case unfolding s1 s2 d
    by (rule tar_add_regular_same[OF "1.prems"(1,2,3) hdr links f "1.prems"(7)[unfolded s1 s2]])
next
  case (2 R st1 target1 st2 target2)
  obtain T1 m1 where s1: "s1 = (T1, m1)" by (cases s1)
  obtain T2 m2 where s2: "s2 = (T2, m2)" by (cases s2)
  from "2.prems"(4,7) s1 s2 show ?case
    by (simp add: corresponding_def set_tar_headers_same_header)
next
  case (3 R st1 entries1 st2 entries2)
  obtain T1 m1 where s1: "s1 = (T1, m1)" by (cases s1)
  obtain T2 m2 where s2: "s2 = (T2, m2)" by (cases s2)
  from "3.prems"(4) have hdr: "same_header st1 st2"
    and es: "same_entries R (sort_key fst entries1) (sort_key fst entries2)" by simp_all
  have sub1: "set (files_below arcname (sort_key fst entries1)) \<subseteq> F1"
    using "3.prems"(5) by (simp add: files_below_sort)
  have sub2: "set (files_below arcname (sort_key fst entries2)) \<subseteq> F2"
    using "3.prems"(6) by (simp add: files_below_sort)
  have cor: "corresponding R F1 F2
      (T1, m1 @ [(set_tar_headers (gettarinfo arcname st1 DIRTYPE [] 0), [])])
      (T2, m2 @ [(set_tar_headers (gettarinfo arcname st2 DIRTYPE [] 0), [])])"
    using "3.prems"(7) s1 s2 set_tar_headers_same_header[OF hdr]
    by (simp add: corresponding_def)
  from "3.IH"[OF "3.prems"(1,2,3) es sub1 sub2 cor] s1 s2
  show ?case by simp
next
  case (6 R f1 child1 rest1 f2 child2 rest2)
  from "6.prems"(4) have f: "f1 = f2" and c: "same_tree R child1 child2"
    and r: "same_entries R rest1 rest2" by simp_all
  from "6.prems"(5) have sub1: "set (files_at (arcname @ ''/'' @ f1) child1) \<subseteq> F1"
    and rest1: "set (files_below arcname rest1) \<subseteq> F1" by simp_all
  from "6.prems"(6) f have sub2: "set (files_at (arcname @ ''/'' @ f1) child2) \<subseteq> F2"
    and rest2: "set (files_below arcname rest2) \<subseteq> F2" by simp_all
  note step = "6.IH"(1)[OF "6.prems"(1,2,3) c sub1 sub2 "6.prems"(7)]
  from "6.IH"(2)[OF "6.prems"(1,2,3) r rest1 rest2 step] f
  show ?case by simp
qed simp_all

lemma tar_add_listing_same:
  assumes "one_to_one R" and "counted_links F1" and "counted_links F2"
  shows "same_entries R dir1 dir2 \<Longrightarrow>
         set (regular_files dir1) \<subseteq> F1 \<Longrightarrow> set (regular_files dir2) \<subseteq> F2 \<Longrightarrow>
         corresponding R F1 F2 s1 s2 \<Longrightarrow>
         corresponding R F1 F2 (tar_add_listing set_tar_headers dir1 s1)
           (tar_add_listing set_tar_headers dir2 s2)"
proof (induction dir1 arbitrary: dir2 s1 s2)
  case Nil
  then show ?case by (cases dir2) simp_all
next
  case (Cons e1 rest1)
  obtain f1 child1 where e1: "e1 = (f1, child1)" by (cases e1)
  from Cons.prems(1) e1 obtain child2 rest2 where dir2: "dir2 = (f1, child2) # rest2"
    and c: "same_tree R child1 child2" and r: "same_entries R rest1 rest2"
    by (cases dir2) auto
  from Cons.prems(2) e1 have sub1: "set (files_at f1 child1) \<subseteq> F1"
    and rest1: "set (regular_files rest1) \<subseteq> F1" by (simp_all add: regular_files_def)
  from Cons.prems(3) dir2 have sub2: "set (files_at f1 child2) \<subseteq> F2"
    and rest2: "set (regular_files rest2) \<subseteq> F2" by (simp_all add: regular_files_def)
  note step = tar_add_same_tree(1)[OF assms c sub1 sub2 Cons.prems(4)]
  from Cons.IH[OF r rest1 rest2 step] e1 dir2
  show ?case by simp
qed

lemma layer_members_same_staged:
  assumes "one_to_one R" and "same_staged R dir1 dir2"
    and "links_counted dir1" and "links_counted dir2"
  shows "layer_members dir1 = layer_members dir2"
proof -
  have "corresponding R (set (regular_files dir1)) (set (regular_files dir2))
      (Map.empty, []) (Map.empty, [])"
    by (simp add: corresponding_def table_of_def)
  from tar_add_listing_same[OF assms(1) assms(3,4)[unfolded links_counted_def]
      assms(2)[unfolded same_staged_def] subset_refl subset_refl this]
  show ?thesis by (simp add: layer_members_def corresponding_def)
qed

text \<open>
  C2 (as amended). Two staged directories that hold the same file tree (the same names,
  kinds, permission bits, numeric owner and group ids, link targets, bytes and hard
  links) and whose top-level entries are listed in the same order are archived into the
  same members, get the same layer digest and give the same layer, whatever the
  modification times, the owner and group names, the inode numbers, the devices and
  the link counts of their entries, and whatever the listing order inside their
  directories. The link counts are those of a file system: a file with another name in
  the tree has more than one link.
\<close>

theorem same_tree_same_layer_digest:
  assumes "one_to_one R" and "same_staged R dir1 dir2"
    and "links_counted dir1" and "links_counted dir2"
  shows "layer_members dir1 = layer_members dir2 \<and>
         layer_digest L dir1 = layer_digest L dir2 \<and>
         create_layer L self dir1 sb = create_layer L self dir2 sb"
proof -
  have "layer_members dir1 = layer_members dir2"
    using assms by (rule layer_members_same_staged)
  then show ?thesis by (simp add: layer_digest_def create_layer_def)
qed

lemma example_dir_members:
  "layer_members example_dir =
     [(\<lparr> ti_name = ''hello.txt'', ti_mode = 420, ti_uid = 0, ti_gid = 0, ti_size = 2,
         ti_mtime = magic_timestamp, ti_type = REGTYPE, ti_linkname = [],
         ti_uname = ''buildstream'', ti_gname = ''buildstream'' \<rparr>, [104, 105])]"
  "layer_members example_dir_other_owner =
     [(\<lparr> ti_name = ''hello.txt'', ti_mode = 420, ti_uid = 1000, ti_gid = 1000, ti_size = 2,
         ti_mtime = magic_timestamp, ti_type = REGTYPE, ti_linkname = [],
         ti_uname = ''buildstream'', ti_gname = ''buildstream'' \<rparr>, [104, 105])]"
  by (simp_all add: layer_members_def example_dir_def example_dir_other_owner_def example_stat_def
      gettarinfo_def set_tar_headers_def)

lemma example_dir_sha256:
  "sha256 example_libs (tar_format example_libs (layer_members example_dir)) = 6470349059"
  "sha256 example_libs (tar_format example_libs (layer_members example_dir_other_owner)) = 6691517443"
  by (simp_all add: example_dir_members example_libs_def)

lemma example_hexdigest:
  "hexdigest 6470349059 = ''0000000000000000000000000000000000000000000000000000000181a9b103''"
  "hexdigest 6691517443 = ''000000000000000000000000000000000000000000000000000000018ed87403''"
  by code_simp+

lemma example_dir_listed_members:
  "layer_members example_dir_listed =
     [(\<lparr> ti_name = ''a'', ti_mode = 420, ti_uid = 0, ti_gid = 0, ti_size = 1,
         ti_mtime = magic_timestamp, ti_type = REGTYPE, ti_linkname = [],
         ti_uname = ''buildstream'', ti_gname = ''buildstream'' \<rparr>, [97]),
      (\<lparr> ti_name = ''b'', ti_mode = 420, ti_uid = 0, ti_gid = 0, ti_size = 1,
         ti_mtime = magic_timestamp, ti_type = REGTYPE, ti_linkname = [],
         ti_uname = ''buildstream'', ti_gname = ''buildstream'' \<rparr>, [98])]"
  "layer_members example_dir_listed_other =
     [(\<lparr> ti_name = ''b'', ti_mode = 420, ti_uid = 0, ti_gid = 0, ti_size = 1,
         ti_mtime = magic_timestamp, ti_type = REGTYPE, ti_linkname = [],
         ti_uname = ''buildstream'', ti_gname = ''buildstream'' \<rparr>, [98]),
      (\<lparr> ti_name = ''a'', ti_mode = 420, ti_uid = 0, ti_gid = 0, ti_size = 1,
         ti_mtime = magic_timestamp, ti_type = REGTYPE, ti_linkname = [],
         ti_uname = ''buildstream'', ti_gname = ''buildstream'' \<rparr>, [97])]"
  by (simp_all add: layer_members_def example_dir_listed_def example_dir_listed_other_def
      example_stat_def gettarinfo_def set_tar_headers_def)

lemma example_dir_listed_sha256:
  "sha256 example_libs (tar_format example_libs (layer_members example_dir_listed)) = 5763985959586312"
  "sha256 example_libs (tar_format example_libs (layer_members example_dir_listed_other)) = 5763985988215462"
  by (simp_all add: example_dir_listed_members example_libs_def)

lemma example_listed_hexdigest:
  "hexdigest 5763985959586312 = ''00000000000000000000000000000000000000000000000000147a508f9c8a08''"
  "hexdigest 5763985988215462 = ''00000000000000000000000000000000000000000000000000147a50915162a6''"
  by code_simp+

text \<open>
  The claim as first stated fails in two ways. It lets the numeric owner and group ids
  differ, but the archive keeps them: the same file owned by uid 0 and by uid 1000 gives
  two archives. And the top-level entries are archived in the order the directory lists
  them: the same two files listed as \<^verbatim>\<open>a\<close>, \<^verbatim>\<open>b\<close> and as \<^verbatim>\<open>b\<close>, \<^verbatim>\<open>a\<close> give two
  archives. A hash that tells the archives apart gives two digests in both cases.
\<close>

theorem same_tree_same_layer_digest_counterexample:
  "forget_owner_and_times example_dir = forget_owner_and_times example_dir_other_owner \<and>
   layer_members example_dir \<noteq> layer_members example_dir_other_owner \<and>
   layer_digest example_libs example_dir \<noteq> layer_digest example_libs example_dir_other_owner \<and>
   example_dir_listed_other = rev example_dir_listed \<and>
   layer_members example_dir_listed \<noteq> layer_members example_dir_listed_other \<and>
   layer_digest example_libs example_dir_listed \<noteq> layer_digest example_libs example_dir_listed_other"
proof -
  have "forget_owner_and_times example_dir = forget_owner_and_times example_dir_other_owner"
    by (simp add: forget_owner_and_times_def map_stat_dir_def example_dir_def
        example_dir_other_owner_def example_stat_def forget_owner_stat_def)
  moreover have "layer_members example_dir \<noteq> layer_members example_dir_other_owner"
    by (simp add: example_dir_members)
  moreover have "layer_digest example_libs example_dir \<noteq> layer_digest example_libs example_dir_other_owner"
    by (simp add: layer_digest_def example_dir_sha256 example_hexdigest)
  moreover have "example_dir_listed_other = rev example_dir_listed"
    by (simp add: example_dir_listed_def example_dir_listed_other_def)
  moreover have "layer_members example_dir_listed \<noteq> layer_members example_dir_listed_other"
    by (simp add: example_dir_listed_members)
  moreover have "layer_digest example_libs example_dir_listed \<noteq>
      layer_digest example_libs example_dir_listed_other"
    by (simp add: layer_digest_def example_dir_listed_sha256 example_listed_hexdigest)
  ultimately show ?thesis by blast
qed

lemma example_inodes_one_to_one: "one_to_one example_inodes"
  by (auto simp: one_to_one_def example_inodes_def)

lemma example_tree_same_staged: "same_staged example_inodes example_tree example_tree_later"
  by (simp add: same_staged_def example_tree_def example_tree_later_def example_stat_def
      same_header_def same_links_def example_inodes_def)

lemma example_tree_links_counted: "links_counted example_tree" "links_counted example_tree_later"
  by (simp_all add: links_counted_def counted_links_def regular_files_def example_tree_def
      example_tree_later_def example_stat_def)

lemma example_tree_members:
  "layer_members example_tree =
     [(\<lparr> ti_name = ''usr'', ti_mode = 493, ti_uid = 0, ti_gid = 0, ti_size = 0,
         ti_mtime = magic_timestamp, ti_type = DIRTYPE, ti_linkname = [],
         ti_uname = ''buildstream'', ti_gname = ''buildstream'' \<rparr>, []),
      (\<lparr> ti_name = ''usr/bash'', ti_mode = 420, ti_uid = 0, ti_gid = 0, ti_size = 2,
         ti_mtime = magic_timestamp, ti_type = REGTYPE, ti_linkname = [],
         ti_uname = ''buildstream'', ti_gname = ''buildstream'' \<rparr>, [35, 33]),
      (\<lparr> ti_name = ''usr/sh'', ti_mode = 420, ti_uid = 0, ti_gid = 0, ti_size = 0,
         ti_mtime = magic_timestamp, ti_type = LNKTYPE, ti_linkname = ''usr/bash'',
         ti_uname = ''buildstream'', ti_gname = ''buildstream'' \<rparr>, []),
      (\<lparr> ti_name = ''hello.txt'', ti_mode = 420, ti_uid = 0, ti_gid = 0, ti_size = 2,
         ti_mtime = magic_timestamp, ti_type = REGTYPE, ti_linkname = [],
         ti_uname = ''buildstream'', ti_gname = ''buildstream'' \<rparr>, [104, 105])]"
  by (simp add: layer_members_def example_tree_def example_stat_def gettarinfo_def set_tar_headers_def)

text \<open>
  The same tree staged by two builds: a directory, two names of one file and a third
  file, with other inodes, link counts, modification times and owner names, and the
  directory listed in another order. One archive, with the hard link in it.
\<close>

theorem same_tree_same_layer_digest_witness:
  "one_to_one example_inodes \<and> same_staged example_inodes example_tree example_tree_later \<and>
   links_counted example_tree \<and> links_counted example_tree_later \<and>
   example_tree \<noteq> example_tree_later \<and>
   layer_members example_tree_later = layer_members example_tree \<and>
   layer_digest example_libs example_tree = layer_digest example_libs example_tree_later \<and>
   create_layer example_libs (example_element [] [(''repo'', ''tag'')]) example_tree empty_sandbox =
   create_layer example_libs (example_element [] [(''repo'', ''tag'')]) example_tree_later empty_sandbox"
proof -
  have "example_tree \<noteq> example_tree_later"
    by (simp add: example_tree_def example_tree_later_def example_stat_def)
  with example_inodes_one_to_one example_tree_same_staged example_tree_links_counted
    same_tree_same_layer_digest[OF example_inodes_one_to_one example_tree_same_staged
      example_tree_links_counted]
  show ?thesis by simp
qed

subsection \<open>The layer directory\<close>

lemma hexdigest_length: "length (hexdigest w) = 64"
  by (simp add: hexdigest_def)

lemma layer_digest_length: "length (layer_digest L dir) = 64"
  by (simp add: layer_digest_def hexdigest_length)

lemma layer_digest_not_tmp: "layer_digest L dir \<noteq> ''tmp''"
  using layer_digest_length[of L dir] by auto

lemma create_layer_ok:
  assumes "map_of (sb_layers sb) ''tmp'' = None"
    and "map_of (sb_layers sb) (layer_digest L dir) = None"
  shows "\<exists>sb'. create_layer L self dir sb = (Inr (layer_digest L dir), sb') \<and>
           map_of (sb_layers sb') = (map_of (sb_layers sb))(layer_digest L dir \<mapsto> layer_entry L self dir) \<and>
           sb_image sb' = sb_image sb"
proof -
  have "(map_of (sb_layers sb))(''tmp'' := None) = map_of (sb_layers sb)"
    using assms(1) by (auto simp: fun_eq_iff)
  then show ?thesis
  using assms layer_digest_not_tmp[of L dir]
  by (simp add: create_layer_def and_then_def makedirs_exist_ok_def write_file_def save_json_def
      hash_digest_def move_atomic_def record_state_def Let_def update_conv' delete_conv'
      layer_entry_def file_bytes_def layer_digest_def[symmetric])
qed

lemma create_layer_exists:
  assumes "map_of (sb_layers sb) ''tmp'' = None"
    and "map_of (sb_layers sb) (layer_digest L dir) = Some (Dir files)" and "files \<noteq> []"
  shows "fst (create_layer L self dir sb) = Inl DirectoryExistsError"
  using assms layer_digest_not_tmp[of L dir]
  by (simp add: create_layer_def and_then_def makedirs_exist_ok_def write_file_def save_json_def
      hash_digest_def move_atomic_def record_state_def Let_def update_conv' delete_conv'
      file_bytes_def layer_digest_def[symmetric])

lemma only_layers_tmp:
  assumes "only_layers l"
  shows "map_of l ''tmp'' = None"
proof (rule ccontr)
  assume "map_of l ''tmp'' \<noteq> None"
  then obtain e where "map_of l ''tmp'' = Some e" by auto
  with assms have "length ''tmp'' = 64" unfolding only_layers_def by blast
  then show False by simp
qed

lemma only_layers_json:
  assumes "only_layers l"
  shows "map_of l (hexdigest w @ ''.json'') = None"
proof (rule ccontr)
  assume "map_of l (hexdigest w @ ''.json'') \<noteq> None"
  then obtain e where "map_of l (hexdigest w @ ''.json'') = Some e" by auto
  with assms have "length (hexdigest w @ ''.json'') = 64" unfolding only_layers_def by blast
  then show False by (simp add: hexdigest_length)
qed

lemma only_layers_taken:
  "only_layers l \<Longrightarrow> map_of l name \<noteq> None \<Longrightarrow> \<exists>files. map_of l name = Some (Dir files) \<and> files \<noteq> []"
  by (auto simp: only_layers_def)

lemma only_layers_update:
  assumes "only_layers l" and "map_of l' = (map_of l)(layer_digest L dir \<mapsto> layer_entry L self dir)"
  shows "only_layers l'"
  using assms by (auto simp: only_layers_def layer_digest_length layer_entry_def split: if_splits)

lemma create_layers_result:
  assumes "only_layers (sb_layers sb)"
  shows "(distinct (map (layer_digest L) dirs) \<and>
            (\<forall>d \<in> set dirs. map_of (sb_layers sb) (layer_digest L d) = None) \<longrightarrow>
          (\<exists>sb'. create_layers L self dirs sb = (Inr (map (layer_digest L) dirs), sb') \<and>
             only_layers (sb_layers sb') \<and> sb_image sb' = sb_image sb \<and>
             (\<forall>d \<in> set dirs. map_of (sb_layers sb') (layer_digest L d) = Some (layer_entry L self d)) \<and>
             (\<forall>name. name \<notin> layer_digest L ` set dirs \<longrightarrow>
                map_of (sb_layers sb') name = map_of (sb_layers sb) name)))
         \<and> (\<not> (distinct (map (layer_digest L) dirs) \<and>
               (\<forall>d \<in> set dirs. map_of (sb_layers sb) (layer_digest L d) = None)) \<longrightarrow>
            fst (create_layers L self dirs sb) = Inl DirectoryExistsError)"
  using assms
proof (induction dirs arbitrary: sb)
  case Nil
  then show ?case by simp
next
  case (Cons d rest)
  let ?dg = "layer_digest L d"
  note tmp = only_layers_tmp[OF Cons.prems]
  show ?case
  proof (cases "map_of (sb_layers sb) ?dg")
    case (Some e)
    with only_layers_taken[OF Cons.prems, of ?dg]
    obtain files where "map_of (sb_layers sb) ?dg = Some (Dir files)" "files \<noteq> []" by auto
    from create_layer_exists[OF tmp this, of self]
    have "fst (create_layers L self (d # rest) sb) = Inl DirectoryExistsError"
      by (cases "create_layer L self d sb") (simp add: and_then_def)
    with Some show ?thesis by auto
  next
    case None
    from create_layer_ok[OF tmp None, of self]
    obtain sb1 where c1: "create_layer L self d sb = (Inr ?dg, sb1)"
      and m1: "map_of (sb_layers sb1) = (map_of (sb_layers sb))(?dg \<mapsto> layer_entry L self d)"
      and i1: "sb_image sb1 = sb_image sb" by blast
    have ol1: "only_layers (sb_layers sb1)" by (rule only_layers_update[OF Cons.prems m1])
    note IH = Cons.IH[OF ol1]
    have step: "create_layers L self (d # rest) sb =
        and_then (create_layers L self rest sb1) (\<lambda>digests sb. (Inr (?dg # digests), sb))"
      using c1 by (simp add: and_then_def)
    have cond: "(distinct (map (layer_digest L) (d # rest)) \<and>
          (\<forall>x \<in> set (d # rest). map_of (sb_layers sb) (layer_digest L x) = None)) \<longleftrightarrow>
        (distinct (map (layer_digest L) rest) \<and>
          (\<forall>x \<in> set rest. map_of (sb_layers sb1) (layer_digest L x) = None))"
      using None m1 by (auto simp: image_iff)
    show ?thesis
    proof (cases "distinct (map (layer_digest L) rest) \<and>
          (\<forall>x \<in> set rest. map_of (sb_layers sb1) (layer_digest L x) = None)")
      case False
      with IH have "fst (create_layers L self rest sb1) = Inl DirectoryExistsError" by blast
      then have "fst (create_layers L self (d # rest) sb) = Inl DirectoryExistsError"
        unfolding step by (cases "create_layers L self rest sb1") (simp add: and_then_def)
      with False cond show ?thesis by blast
    next
      case True
      with IH obtain sb' where r: "create_layers L self rest sb1 = (Inr (map (layer_digest L) rest), sb')"
        and ol: "only_layers (sb_layers sb')" and im: "sb_image sb' = sb_image sb1"
        and got: "\<forall>x \<in> set rest. map_of (sb_layers sb') (layer_digest L x) = Some (layer_entry L self x)"
        and frame: "\<forall>name. name \<notin> layer_digest L ` set rest \<longrightarrow>
            map_of (sb_layers sb') name = map_of (sb_layers sb1) name"
        by blast
      have res: "create_layers L self (d # rest) sb = (Inr (map (layer_digest L) (d # rest)), sb')"
        unfolding step using r by (simp add: and_then_def)
      have fresh: "?dg \<notin> layer_digest L ` set rest"
        using True m1 by force
      have got': "\<forall>x \<in> set (d # rest). map_of (sb_layers sb') (layer_digest L x) = Some (layer_entry L self x)"
        using got frame fresh m1 by auto
      have frame': "\<forall>name. name \<notin> layer_digest L ` set (d # rest) \<longrightarrow>
            map_of (sb_layers sb') name = map_of (sb_layers sb) name"
        using frame m1 by auto
      from res ol im i1 got' frame' True cond show ?thesis by simp
    qed
  qed
qed

lemma save_json_top_ok:
  assumes "\<forall>files. map_of (sb_layers sb) name \<noteq> Some (Dir files)"
  shows "\<exists>sb'. save_json body [name] sb = (Inr (), sb') \<and>
           map_of (sb_layers sb') = (map_of (sb_layers sb))(name \<mapsto> File (Written (Json body))) \<and>
           sb_image sb' = sb_image sb"
  using assms
  by (cases "map_of (sb_layers sb) name")
     (auto simp: save_json_def write_file_def record_state_def Let_def update_conv' split: entry.splits)

lemma create_image_config_ok:
  assumes "only_layers (sb_layers sb)"
  shows "\<exists>sb'. create_image_config L self digests sb = (Inr (image_digest L self digests), sb') \<and>
           map_of (sb_layers sb') =
             (map_of (sb_layers sb))(image_digest L self digests @ ''.json'' \<mapsto>
                File (Written (Json (image_config self digests)))) \<and>
           sb_image sb' = sb_image sb"
proof -
  note tmp = only_layers_tmp[OF assms]
  have free: "map_of (sb_layers sb) (image_digest L self digests @ ''.json'') = None"
    unfolding image_digest_def by (rule only_layers_json[OF assms])
  have ne: "image_digest L self digests @ ''.json'' \<noteq> ''tmp''"
    by (simp add: image_digest_def)
  have "(map_of (sb_layers sb))(''tmp'' := None) = map_of (sb_layers sb)"
    using tmp by (auto simp: fun_eq_iff)
  then show ?thesis
    using tmp free ne
    by (simp add: create_image_config_def and_then_def write_file_def save_json_def
        hash_digest_def move_atomic_def record_state_def Let_def update_conv' delete_conv'
        file_bytes_def image_digest_def[symmetric])
qed

lemma only_layers_empty: "only_layers (sb_layers empty_sandbox)"
  by (simp add: only_layers_def empty_sandbox_def)

lemma digest_names_differ:
  "hexdigest w @ ''.json'' \<noteq> ''repositories''" "hexdigest w @ ''.json'' \<noteq> ''manifest.json''"
  "layer_digest L d \<noteq> ''repositories''" "layer_digest L d \<noteq> ''manifest.json''"
  "layer_digest L d \<noteq> hexdigest w @ ''.json''"
  using hexdigest_length[of w] layer_digest_length[of L d] by auto

lemma only_layers_not_named:
  assumes "only_layers l" and "length name \<noteq> 64"
  shows "map_of l name = None"
  using assms by (cases "map_of l name") (auto simp: only_layers_def)

lemma assemble_result:
  fixes run_deps :: "'e::finite \<Rightarrow> 'e list"
    and stage_artifact :: "'e \<Rightarrow> directory \<Rightarrow> directory"
    and build_deps :: "'e list" and L :: libs
  defines "paths \<equiv> layer_paths run_deps stage_artifact build_deps"
  defines "ds \<equiv> layer_digests L run_deps stage_artifact build_deps"
  shows "(distinct ds \<and> ds \<noteq> [] \<longrightarrow>
           (\<exists>sb. assemble L self run_deps stage_artifact build_deps = (Inr ''/image'', sb) \<and>
              sb_image sb = Some (sb_layers sb) \<and>
              map_of (sb_layers sb) ''tmp'' = None \<and>
              map_of (sb_layers sb) ''manifest.json'' =
                Some (File (Written (Json (manifest self ds (image_digest L self ds))))) \<and>
              map_of (sb_layers sb) ''repositories'' =
                Some (File (Written (Json (repositories self (hd ds))))) \<and>
              map_of (sb_layers sb) (image_digest L self ds @ ''.json'') =
                Some (File (Written (Json (image_config self ds)))) \<and>
              (\<forall>d \<in> set paths. map_of (sb_layers sb) (layer_digest L d) = Some (layer_entry L self d))))
         \<and> (\<not> distinct ds \<longrightarrow>
              fst (assemble L self run_deps stage_artifact build_deps) = Inl DirectoryExistsError)
         \<and> (ds = [] \<longrightarrow>
              fst (assemble L self run_deps stage_artifact build_deps) = Inl IndexError)"
proof -
  let ?id = "image_digest L self ds"
  have ds: "ds = map (layer_digest L) paths"
    by (simp add: ds_def paths_def layer_digests_def)
  have unfold: "assemble L self run_deps stage_artifact build_deps =
      and_then (create_layers L self paths empty_sandbox) (\<lambda>layer_digests sb.
      and_then (create_image_config L self layer_digests sb) (\<lambda>image_id sb.
      and_then (case layer_digests of
                  [] \<Rightarrow> (Inl IndexError, sb)
                | base # _ \<Rightarrow> create_repositories_file self base sb) (\<lambda>_ sb.
      and_then (create_manifest self layer_digests image_id sb) (\<lambda>_ sb.
      and_then (pack_image sb) (\<lambda>_ sb.
      (Inr ''/image'', sb))))))"
    by (simp add: assemble_def paths_def layer_paths_def)
  note CL = create_layers_result[OF only_layers_empty, of L paths self]
  have none: "\<forall>d \<in> set paths. map_of (sb_layers empty_sandbox) (layer_digest L d) = None"
    by (simp add: empty_sandbox_def)
  show ?thesis
  proof (cases "distinct ds")
    case False
    with CL ds have "fst (create_layers L self paths empty_sandbox) = Inl DirectoryExistsError"
      by simp
    then have "fst (assemble L self run_deps stage_artifact build_deps) = Inl DirectoryExistsError"
      unfolding unfold by (cases "create_layers L self paths empty_sandbox") (simp add: and_then_def)
    with False show ?thesis by auto
  next
    case True
    with CL ds none obtain sb1 where r1: "create_layers L self paths empty_sandbox = (Inr ds, sb1)"
      and ol1: "only_layers (sb_layers sb1)" and im1: "sb_image sb1 = sb_image empty_sandbox"
      and got1: "\<forall>d \<in> set paths. map_of (sb_layers sb1) (layer_digest L d) = Some (layer_entry L self d)"
      by auto
    from create_image_config_ok[OF ol1, of L self ds]
    obtain sb2 where r2: "create_image_config L self ds sb1 = (Inr ?id, sb2)"
      and m2: "map_of (sb_layers sb2) =
        (map_of (sb_layers sb1))(?id @ ''.json'' \<mapsto> File (Written (Json (image_config self ds))))"
      by blast
    show ?thesis
    proof (cases ds)
      case Nil
      with r1 r2 have "fst (assemble L self run_deps stage_artifact build_deps) = Inl IndexError"
        unfolding unfold by (simp add: and_then_def)
      with Nil show ?thesis by simp
    next
      case (Cons base more)
      have repo_free: "\<forall>files. map_of (sb_layers sb2) ''repositories'' \<noteq> Some (Dir files)"
        using m2 only_layers_not_named[OF ol1, of "''repositories''"]
        by (simp add: image_digest_def digest_names_differ)
      from save_json_top_ok[OF repo_free, of "repositories self base"]
      obtain sb3 where r3: "create_repositories_file self base sb2 = (Inr (), sb3)"
        and m3: "map_of (sb_layers sb3) =
          (map_of (sb_layers sb2))(''repositories'' \<mapsto> File (Written (Json (repositories self base))))"
        unfolding create_repositories_file_def by blast
      have man_free: "\<forall>files. map_of (sb_layers sb3) ''manifest.json'' \<noteq> Some (Dir files)"
        using m3 m2 only_layers_not_named[OF ol1, of "''manifest.json''"]
        by (simp add: image_digest_def digest_names_differ)
      from save_json_top_ok[OF man_free, of "manifest self ds ?id"]
      obtain sb4 where r4: "create_manifest self ds ?id sb3 = (Inr (), sb4)"
        and m4: "map_of (sb_layers sb4) =
          (map_of (sb_layers sb3))(''manifest.json'' \<mapsto> File (Written (Json (manifest self ds ?id))))"
        unfolding create_manifest_def by blast
      let ?sb = "sb4\<lparr> sb_image := Some (sb_layers sb4) \<rparr>"
      have res: "assemble L self run_deps stage_artifact build_deps = (Inr ''/image'', ?sb)"
        unfolding unfold using r1 r2 r3 r4 Cons by (simp add: and_then_def pack_image_def)
      have layers: "\<forall>d \<in> set paths. map_of (sb_layers ?sb) (layer_digest L d) = Some (layer_entry L self d)"
        using got1 m2 m3 m4 by (simp add: image_digest_def digest_names_differ)
      have "map_of (sb_layers ?sb) ''manifest.json'' =
          Some (File (Written (Json (manifest self ds ?id))))"
        using m4 by simp
      moreover have "map_of (sb_layers ?sb) ''tmp'' = None"
        using m4 m3 m2 only_layers_tmp[OF ol1] by (simp add: image_digest_def)
      moreover have "map_of (sb_layers ?sb) ''repositories'' =
          Some (File (Written (Json (repositories self (hd ds)))))"
        using m4 m3 Cons by simp
      moreover have "map_of (sb_layers ?sb) (?id @ ''.json'') =
          Some (File (Written (Json (image_config self ds))))"
        using m4 m3 m2 by (simp add: image_digest_def digest_names_differ)
      ultimately show ?thesis using res layers True Cons by auto
    qed
  qed
qed

subsection \<open>The image files\<close>

lemma stage_layers_length: "length (stage_layers run_deps build_deps) = length build_deps"
proof -
  have "closed_under run_deps {}" by (simp add: closed_under_def)
  from stage_layers_from_layers[OF this, of build_deps]
  have "map fst (stage_layers run_deps build_deps) = build_deps" by (simp add: stage_layers_def)
  then show ?thesis by (metis length_map)
qed

lemma stage_layers_fst:
  assumes "i < length build_deps"
  shows "fst (stage_layers run_deps build_deps ! i) = build_deps ! i"
proof -
  have "closed_under run_deps {}" by (simp add: closed_under_def)
  from stage_layers_from_layers[OF this, of build_deps]
  have "map fst (stage_layers run_deps build_deps) = build_deps" by (simp add: stage_layers_def)
  then show ?thesis using assms by (metis length_map nth_map)
qed

lemma layer_digests_nth:
  assumes "i < length build_deps"
  shows "layer_digests L run_deps stage_artifact build_deps ! i =
           layer_digest L (stage_directory stage_artifact (snd (stage_layers run_deps build_deps ! i)))"
  using assms
  by (simp add: layer_digests_def layer_paths_def stage_layers_length case_prod_beta)

lemma layer_digests_length:
  "length (layer_digests L run_deps stage_artifact build_deps) = length build_deps"
  by (simp add: layer_digests_def layer_paths_def stage_layers_length)

lemma assemble_success:
  assumes "assemble L self run_deps stage_artifact build_deps = (Inr r, sb)"
  defines "ds \<equiv> layer_digests L run_deps stage_artifact build_deps"
  shows "distinct ds" and "ds \<noteq> []" and "r = ''/image''" and "sb_image sb = Some (sb_layers sb)"
    and "map_of (sb_layers sb) ''manifest.json'' =
           Some (File (Written (Json (manifest self ds (image_digest L self ds)))))"
    and "map_of (sb_layers sb) ''repositories'' = Some (File (Written (Json (repositories self (hd ds)))))"
    and "map_of (sb_layers sb) (image_digest L self ds @ ''.json'') =
           Some (File (Written (Json (image_config self ds))))"
    and "\<forall>d \<in> set (layer_paths run_deps stage_artifact build_deps).
           map_of (sb_layers sb) (layer_digest L d) = Some (layer_entry L self d)"
proof -
  note R = assemble_result[of L run_deps stage_artifact build_deps self, folded ds_def]
  show d: "distinct ds" using R assms(1) by (cases "distinct ds") auto
  show n: "ds \<noteq> []" using R assms(1) by (cases "ds = []") auto
  from R d n obtain sb' where "assemble L self run_deps stage_artifact build_deps = (Inr ''/image'', sb')"
    and "sb_image sb' = Some (sb_layers sb')"
    and "map_of (sb_layers sb') ''manifest.json'' =
           Some (File (Written (Json (manifest self ds (image_digest L self ds)))))"
    and "map_of (sb_layers sb') ''repositories'' = Some (File (Written (Json (repositories self (hd ds)))))"
    and "map_of (sb_layers sb') (image_digest L self ds @ ''.json'') =
           Some (File (Written (Json (image_config self ds))))"
    and "\<forall>d \<in> set (layer_paths run_deps stage_artifact build_deps).
           map_of (sb_layers sb') (layer_digest L d) = Some (layer_entry L self d)"
    by blast
  with assms(1) show "r = ''/image''" and "sb_image sb = Some (sb_layers sb)"
    and "map_of (sb_layers sb) ''manifest.json'' =
           Some (File (Written (Json (manifest self ds (image_digest L self ds)))))"
    and "map_of (sb_layers sb) ''repositories'' = Some (File (Written (Json (repositories self (hd ds)))))"
    and "map_of (sb_layers sb) (image_digest L self ds @ ''.json'') =
           Some (File (Written (Json (image_config self ds))))"
    and "\<forall>d \<in> set (layer_paths run_deps stage_artifact build_deps).
           map_of (sb_layers sb) (layer_digest L d) = Some (layer_entry L self d)"
    by simp_all
qed


text \<open>
  \<^verbatim>\<open>assemble\<close> returns exactly when there is a build dependency and the digests of
  the layers are pairwise different. Then, for \<open>N\<close> declared build dependencies, the
  manifest's \<^verbatim>\<open>Layers\<close> list and the image configuration's \<^verbatim>\<open>diff_ids\<close> list have
  \<open>N\<close> entries each, and entry \<open>i\<close> of both is made from the digest of the layer staged
  for the \<open>i\<close>-th declared build dependency.
\<close>

lemma assemble_returns_iff:
  "(\<exists>r sb. assemble L self run_deps stage_artifact build_deps = (Inr r, sb)) \<longleftrightarrow>
   build_deps \<noteq> [] \<and> distinct (layer_digests L run_deps stage_artifact build_deps)"
proof
  assume "\<exists>r sb. assemble L self run_deps stage_artifact build_deps = (Inr r, sb)"
  then obtain r sb where a: "assemble L self run_deps stage_artifact build_deps = (Inr r, sb)"
    by blast
  from assemble_success(1,2)[OF a] layer_digests_length[of L run_deps stage_artifact build_deps]
  show "build_deps \<noteq> [] \<and> distinct (layer_digests L run_deps stage_artifact build_deps)"
    by auto
next
  assume b: "build_deps \<noteq> [] \<and> distinct (layer_digests L run_deps stage_artifact build_deps)"
  then have "layer_digests L run_deps stage_artifact build_deps \<noteq> []"
    using layer_digests_length[of L run_deps stage_artifact build_deps] by auto
  with b assemble_result[of L run_deps stage_artifact build_deps self]
  show "\<exists>r sb. assemble L self run_deps stage_artifact build_deps = (Inr r, sb)"
    by blast
qed

lemma layers_in_declaration_order:
  assumes "assemble L self run_deps stage_artifact build_deps = (Inr r, sb)"
  shows "build_deps \<noteq> [] \<and>
         (\<exists>ds config entry.
            length ds = length build_deps \<and>
            (\<forall>i < length build_deps.
               fst (stage_layers run_deps build_deps ! i) = build_deps ! i \<and>
               ds ! i = layer_digest L
                 (stage_directory stage_artifact (snd (stage_layers run_deps build_deps ! i)))) \<and>
            read_file (sb_layers sb) [image_digest L self ds @ ''.json''] = Some (Written (Json config)) \<and>
            json_path [''rootfs'', ''diff_ids''] config =
              Some (JList (map (\<lambda>d. JStr (''sha256:'' @ d)) ds)) \<and>
            read_file (sb_layers sb) [''manifest.json''] = Some (Written (Json (JList [entry]))) \<and>
            json_member ''Layers'' entry = Some (JList (map (\<lambda>d. JStr (d @ ''/layer.tar'')) ds)) \<and>
            json_member ''Config'' entry = Some (JStr (image_digest L self ds @ ''.json'')))"
proof -
  let ?ds = "layer_digests L run_deps stage_artifact build_deps"
  note S = assemble_success[OF assms]
  have len: "length ?ds = length build_deps" by (rule layer_digests_length)
  with S(2) have ne: "build_deps \<noteq> []" by auto
  have nth: "\<forall>i < length build_deps.
      fst (stage_layers run_deps build_deps ! i) = build_deps ! i \<and>
      ?ds ! i = layer_digest L
        (stage_directory stage_artifact (snd (stage_layers run_deps build_deps ! i)))"
    by (simp add: stage_layers_fst layer_digests_nth)
  have cfg: "read_file (sb_layers sb) [image_digest L self ?ds @ ''.json''] =
      Some (Written (Json (image_config self ?ds)))"
    using S(7) by simp
  have diff: "json_path [''rootfs'', ''diff_ids''] (image_config self ?ds) =
      Some (JList (map (\<lambda>d. JStr (''sha256:'' @ d)) ?ds))"
    by (simp add: image_config_def)
  have man: "read_file (sb_layers sb) [''manifest.json''] =
      Some (Written (Json (manifest self ?ds (image_digest L self ?ds))))"
    using S(5) by simp
  obtain entry where entry: "manifest self ?ds (image_digest L self ?ds) = JList [entry]"
    and lay: "json_member ''Layers'' entry = Some (JList (map (\<lambda>d. JStr (d @ ''/layer.tar'')) ?ds))"
    and con: "json_member ''Config'' entry = Some (JStr (image_digest L self ?ds @ ''.json''))"
    by (simp add: manifest_def)
  show ?thesis
    using ne len nth cfg diff man entry lay con by (intro conjI exI[of _ ?ds]) auto
qed

lemma example_layer_paths:
  "layer_paths example_run_deps example_stage [True, False] = [example_dir, example_dir_other_owner]"
  "layer_paths example_run_deps example_stage [True] = [example_dir]"
  by (simp_all add: layer_paths_def stage_layers_def example_run_deps_def stage_directory_def
      example_stage_def)

lemma example_layer_digest:
  "layer_digest example_libs example_dir = example_digest"
  "layer_digest example_libs example_dir_other_owner = example_digest_other"
  by (simp_all add: layer_digest_def example_dir_sha256 example_hexdigest
      example_digest_def example_digest_other_def)

lemma example_layer_digests:
  "layer_digests example_libs example_run_deps example_stage [True, False] =
     [example_digest, example_digest_other]"
  "layer_digests example_libs example_run_deps example_stage [True] = [example_digest]"
  by (simp_all add: layer_digests_def example_layer_paths example_layer_digest)

lemma example_digests_differ: "example_digest \<noteq> example_digest_other"
  by (simp add: example_digest_def example_digest_other_def)

lemma example_assemble:
  "\<exists>sb. assemble example_libs self example_run_deps example_stage [True, False] = (Inr ''/image'', sb)"
  "\<exists>sb. assemble example_libs self example_run_deps example_stage [True] = (Inr ''/image'', sb)"
  using assemble_result[of example_libs example_run_deps example_stage "[True, False]" self]
    assemble_result[of example_libs example_run_deps example_stage "[True]" self]
  by (auto simp: example_layer_digests example_digests_differ)

text \<open>Two build dependencies: two entries, in declared order.\<close>

lemma layers_in_declaration_order_example:
  "\<exists>sb entry.
     assemble example_libs (example_element [] [(''repo'', ''tag'')]) example_run_deps example_stage
       [True, False] = (Inr ''/image'', sb) \<and>
     read_file (sb_layers sb) [''manifest.json''] = Some (Written (Json (JList [entry]))) \<and>
     json_member ''Layers'' entry =
       Some (JList [JStr (example_digest @ ''/layer.tar''), JStr (example_digest_other @ ''/layer.tar'')])"
proof -
  let ?self = "example_element [] [(''repo'', ''tag'')]"
  from example_assemble(1)[of ?self] obtain sb where
    sb: "assemble example_libs ?self example_run_deps example_stage [True, False] = (Inr ''/image'', sb)" ..
  from layers_in_declaration_order[OF sb] obtain ds entry where
    ds: "length ds = length [True, False]"
      "\<forall>i < length [True, False]. ds ! i = layer_digest example_libs
         (stage_directory example_stage (snd (stage_layers example_run_deps [True, False] ! i)))"
    and entry: "read_file (sb_layers sb) [''manifest.json''] = Some (Written (Json (JList [entry])))"
      "json_member ''Layers'' entry = Some (JList (map (\<lambda>d. JStr (d @ ''/layer.tar'')) ds))"
    by auto
  have "ds ! 0 = example_digest" "ds ! 1 = example_digest_other"
    using ds(2)
    by (simp_all add: stage_layers_def example_run_deps_def stage_directory_def example_stage_def
        example_layer_digest)
  with ds(1) have "ds = [example_digest, example_digest_other]"
    by (cases ds; cases "tl ds") auto
  with sb entry show ?thesis by auto
qed

text \<open>
  C1. The repositories file maps every configured name to its tag followed by the digest
  that \<^verbatim>\<open>assemble\<close> passes to \<^verbatim>\<open>_create_repositories_file\<close>, which is
  \<^verbatim>\<open>layer_digests[0]\<close>: the digest of the layer of the first declared build dependency,
  not of the last. With two build dependencies whose layers differ, the file names the
  first layer.
\<close>

theorem repositories_file_names_first_layer:
  "layer_digests example_libs example_run_deps example_stage [True, False] =
     [example_digest, example_digest_other] \<and>
   example_digest \<noteq> example_digest_other \<and>
   (\<exists>sb. assemble example_libs (example_element [] [(''repo'', ''tag'')]) example_run_deps example_stage
       [True, False] = (Inr ''/image'', sb) \<and>
     read_file (sb_layers sb) [''repositories''] =
       Some (Written (Json (JObj [(''repo'', JStr (''tag:'' @ example_digest))]))))"
proof -
  let ?self = "example_element [] [(''repo'', ''tag'')]"
  from example_assemble(1)[of ?self] obtain sb where
    sb: "assemble example_libs ?self example_run_deps example_stage [True, False] = (Inr ''/image'', sb)" ..
  from assemble_success(6)[OF sb]
  have "read_file (sb_layers sb) [''repositories''] =
       Some (Written (Json (JObj [(''repo'', JStr (''tag:'' @ example_digest))])))"
    by (simp add: example_layer_digests repositories_def example_element_def)
  with sb example_layer_digests(1) example_digests_differ show ?thesis by blast
qed

lemma repositories_file_of_assemble:
  assumes "assemble L self run_deps stage_artifact build_deps = (Inr r, sb)"
  shows "read_file (sb_layers sb) [''repositories''] =
     Some (Written (Json (JObj (map (\<lambda>(name, tag).
        (name, JStr (tag @ '':'' @ hd (layer_digests L run_deps stage_artifact build_deps))))
        (self_image_names self)))))"
  using assemble_success(6)[OF assms] by (simp add: repositories_def)

text \<open>
  C4 (as amended). For one direct build dependency and a configuration whose
  \<^verbatim>\<open>health-check\<close> is empty, when \<^verbatim>\<open>assemble\<close> returns the image configuration has one
  entry in \<^verbatim>\<open>diff_ids\<close> and one in \<^verbatim>\<open>history\<close>, and its \<^verbatim>\<open>HealthCheck\<close> record holds the
  defaults: \<^verbatim>\<open>Tests\<close> is \<^verbatim>\<open>["NONE"]\<close>, \<^verbatim>\<open>Interval\<close>, \<^verbatim>\<open>Timeout\<close> and \<^verbatim>\<open>Retries\<close> are 0. The
  per-layer metadata record has no \<^verbatim>\<open>HealthCheck\<close> member.
\<close>

theorem single_layer_image_config:
  assumes "configure utcnow n = Inr self"
    and "health_check n = \<lparr> tests = None, interval = None, timeout = None, retries = None \<rparr>"
    and "assemble L self run_deps stage_artifact [dependency] = (Inr r, sb)"
  shows "\<exists>d config entry layer.
           layer_digests L run_deps stage_artifact [dependency] = [d] \<and>
           read_file (sb_layers sb) [image_digest L self [d] @ ''.json''] = Some (Written (Json config)) \<and>
           json_path [''rootfs'', ''diff_ids''] config = Some (JList [JStr (''sha256:'' @ d)]) \<and>
           json_member ''history'' config = Some (JList [entry]) \<and>
           json_path [''config'', ''HealthCheck''] config =
             Some (JObj [(''Tests'', JList [JStr ''NONE'']), (''Interval'', JInt 0),
                         (''Timeout'', JInt 0), (''Retries'', JInt 0)]) \<and>
           read_file (sb_layers sb) [d, ''json''] = Some (Written (Json layer)) \<and>
           json_path [''config'', ''HealthCheck''] layer = None"
proof -
  let ?ds = "layer_digests L run_deps stage_artifact [dependency]"
  have "length ?ds = 1" by (simp add: layer_digests_length)
  then obtain d where d: "?ds = [d]" by (cases ?ds) auto
  note S = assemble_success[OF assms(3)]
  have hc: "self_health_check self =
      [(''Tests'', JList [JStr ''NONE'']), (''Interval'', JInt 0),
       (''Timeout'', JInt 0), (''Retries'', JInt 0)]"
    using assms(1,2) by (auto simp: configure_def Let_def node_get_member_def split: sum.splits)
  have cfg: "read_file (sb_layers sb) [image_digest L self [d] @ ''.json''] =
      Some (Written (Json (image_config self [d])))"
    using S(7) d by simp
  obtain dir where dir: "layer_paths run_deps stage_artifact [dependency] = [dir]"
    and dd: "d = layer_digest L dir"
    using d by (auto simp: layer_digests_def)
  have "map_of (sb_layers sb) d = Some (layer_entry L self dir)"
    using S(8) dir dd by simp
  then have lay: "read_file (sb_layers sb) [d, ''json''] = Some (Written (Json (v1_json self d)))"
    by (simp add: layer_entry_def dd)
  have diff: "json_path [''rootfs'', ''diff_ids''] (image_config self [d]) =
      Some (JList [JStr (''sha256:'' @ d)])"
    by (simp add: image_config_def)
  have hist: "json_member ''history'' (image_config self [d]) =
      Some (JList [JObj [(''created'', JStr (self_created self)),
                         (''created_by'', JStr ''BuildStream Docker Image Plugin'')]])"
    by (simp add: image_config_def)
  have hcc: "json_path [''config'', ''HealthCheck''] (image_config self [d]) =
      Some (JObj [(''Tests'', JList [JStr ''NONE'']), (''Interval'', JInt 0),
                  (''Timeout'', JInt 0), (''Retries'', JInt 0)])"
    using hc by (simp add: image_config_def)
  have nohc: "json_path [''config'', ''HealthCheck''] (v1_json self d) = None"
    by (simp add: v1_json_def)
  show ?thesis
    using d cfg lay diff hist hcc nohc by blast
qed

lemma example_configure_empty:
  "configure example_time (example_node [] [''repo:tag'']) = Inr (example_element [] [(''repo'', ''tag'')])"
  by (simp add: configure_def example_node_def example_element_def example_time_def
      py_dict_def split1_def dict_of_def node_get_member_def)

text \<open>
  The claim as first stated puts the defaults into the per-layer metadata record. In the
  build of one dependency with an empty configuration, that record has no key
  \<^verbatim>\<open>Tests\<close> at any depth.
\<close>

theorem single_layer_image_config_counterexample:
  "configure example_time (example_node [] [''repo:tag'']) = Inr (example_element [] [(''repo'', ''tag'')]) \<and>
   (\<exists>sb. assemble example_libs (example_element [] [(''repo'', ''tag'')]) example_run_deps example_stage
       [True] = (Inr ''/image'', sb) \<and>
     read_file (sb_layers sb) [example_digest, ''json''] =
       Some (Written (Json (v1_json (example_element [] [(''repo'', ''tag'')]) example_digest)))) \<and>
   \<not> json_has_key ''Tests'' (v1_json (example_element [] [(''repo'', ''tag'')]) example_digest)"
proof -
  let ?self = "example_element [] [(''repo'', ''tag'')]"
  from example_assemble(2)[of ?self] obtain sb where
    sb: "assemble example_libs ?self example_run_deps example_stage [True] = (Inr ''/image'', sb)" ..
  from assemble_success(8)[OF sb]
  have "map_of (sb_layers sb) example_digest = Some (layer_entry example_libs ?self example_dir)"
    by (simp add: example_layer_paths example_layer_digest)
  then have "read_file (sb_layers sb) [example_digest, ''json''] =
       Some (Written (Json (v1_json ?self example_digest)))"
    by (simp add: layer_entry_def example_layer_digest)
  moreover have "\<not> json_has_key ''Tests'' (v1_json ?self example_digest)"
    by (simp add: v1_json_def example_element_def)
  ultimately show ?thesis using sb example_configure_empty by blast
qed

text \<open>The same build: the defaults are in the image configuration.\<close>

theorem single_layer_image_config_witness:
  "\<exists>sb config.
     assemble example_libs (example_element [] [(''repo'', ''tag'')]) example_run_deps example_stage
       [True] = (Inr ''/image'', sb) \<and>
     read_file (sb_layers sb)
       [image_digest example_libs (example_element [] [(''repo'', ''tag'')]) [example_digest] @ ''.json'']
       = Some (Written (Json config)) \<and>
     json_path [''rootfs'', ''diff_ids''] config = Some (JList [JStr (''sha256:'' @ example_digest)]) \<and>
     json_path [''config'', ''HealthCheck'', ''Tests''] config = Some (JList [JStr ''NONE''])"
proof -
  let ?self = "example_element [] [(''repo'', ''tag'')]"
  from example_assemble(2)[of ?self] obtain sb where
    sb: "assemble example_libs ?self example_run_deps example_stage [True] = (Inr ''/image'', sb)" ..
  have hc: "health_check (example_node [] [''repo:tag'']) =
      \<lparr> tests = None, interval = None, timeout = None, retries = None \<rparr>"
    by (simp add: example_node_def)
  from single_layer_image_config[OF example_configure_empty hc sb]
  obtain d config where c: "layer_digests example_libs example_run_deps example_stage [True] = [d]"
    "read_file (sb_layers sb) [image_digest example_libs ?self [d] @ ''.json''] = Some (Written (Json config))"
    "json_path [''rootfs'', ''diff_ids''] config = Some (JList [JStr (''sha256:'' @ d)])"
    "json_path [''config'', ''HealthCheck''] config =
       Some (JObj [(''Tests'', JList [JStr ''NONE'']), (''Interval'', JInt 0),
                   (''Timeout'', JInt 0), (''Retries'', JInt 0)])"
    by blast
  from c(1) have d: "d = example_digest" by (simp add: example_layer_digests)
  from c(4) have "json_path [''config'', ''HealthCheck'', ''Tests''] config = Some (JList [JStr ''NONE''])"
    by (auto split: option.splits)
  with sb c(2,3) d show ?thesis by blast
qed

lemma create_layer_exists_state:
  assumes "map_of (sb_layers sb) ''tmp'' = None"
    and "map_of (sb_layers sb) (layer_digest L dir) = Some (Dir files)" and "files \<noteq> []"
  shows "map_of (sb_layers (snd (create_layer L self dir sb))) =
           (map_of (sb_layers sb))(''tmp'' \<mapsto> Dir [(''layer.tar'', Written (Tar (layer_members dir)))])"
    and "sb_image (snd (create_layer L self dir sb)) = sb_image sb"
  using assms layer_digest_not_tmp[of L dir]
  by (simp_all add: create_layer_def and_then_def makedirs_exist_ok_def write_file_def save_json_def
      hash_digest_def move_atomic_def record_state_def Let_def update_conv' delete_conv'
      file_bytes_def layer_digest_def[symmetric])

lemma only_layers_or_scratch: "only_layers l \<Longrightarrow> layers_or_scratch l"
  by (auto simp: only_layers_def layers_or_scratch_def)

lemma create_layers_leaves:
  assumes "only_layers (sb_layers sb)"
  shows "layers_or_scratch (sb_layers (snd (create_layers L self dirs sb))) \<and>
         sb_image (snd (create_layers L self dirs sb)) = sb_image sb"
  using assms
proof (induction dirs arbitrary: sb)
  case Nil
  then show ?case by (simp add: only_layers_or_scratch)
next
  case (Cons d rest)
  let ?dg = "layer_digest L d"
  note tmp = only_layers_tmp[OF Cons.prems]
  show ?case
  proof (cases "map_of (sb_layers sb) ?dg")
    case (Some e)
    with only_layers_taken[OF Cons.prems, of ?dg]
    obtain files where f: "map_of (sb_layers sb) ?dg = Some (Dir files)" "files \<noteq> []" by auto
    from create_layer_exists[OF tmp f, of self]
    obtain sb1 where c1: "create_layer L self d sb = (Inl DirectoryExistsError, sb1)"
      by (cases "create_layer L self d sb") auto
    from create_layer_exists_state[OF tmp f, of self] c1
    have m1: "map_of (sb_layers sb1) =
        (map_of (sb_layers sb))(''tmp'' \<mapsto> Dir [(''layer.tar'', Written (Tar (layer_members d)))])"
      and i1: "sb_image sb1 = sb_image sb" by simp_all
    have "layers_or_scratch (sb_layers sb1)"
      using only_layers_or_scratch[OF Cons.prems] m1 by (auto simp: layers_or_scratch_def)
    with c1 i1 show ?thesis by (simp add: and_then_def)
  next
    case None
    from create_layer_ok[OF tmp None, of self]
    obtain sb1 where c1: "create_layer L self d sb = (Inr ?dg, sb1)"
      and m1: "map_of (sb_layers sb1) = (map_of (sb_layers sb))(?dg \<mapsto> layer_entry L self d)"
      and i1: "sb_image sb1 = sb_image sb" by blast
    have ol1: "only_layers (sb_layers sb1)" by (rule only_layers_update[OF Cons.prems m1])
    have "snd (create_layers L self (d # rest) sb) = snd (create_layers L self rest sb1)"
      using c1 by (cases "create_layers L self rest sb1"; cases "fst (create_layers L self rest sb1)")
        (simp_all add: and_then_def)
    with Cons.IH[OF ol1] i1 show ?thesis by simp
  qed
qed

text \<open>
  Two layers with the same archive have the same digest: the second cannot be renamed
  to the name the first has taken. \<^verbatim>\<open>assemble\<close> ends in \<^verbatim>\<open>DirectoryExistsError\<close>, and
  neither an image configuration nor a manifest nor an image has been written.
\<close>

lemma assemble_equal_layers:
  assumes "\<not> distinct (layer_digests L run_deps stage_artifact build_deps)"
  shows "fst (assemble L self run_deps stage_artifact build_deps) = Inl DirectoryExistsError"
    and "sb_image (snd (assemble L self run_deps stage_artifact build_deps)) = None"
    and "layers_or_scratch (sb_layers (snd (assemble L self run_deps stage_artifact build_deps)))"
proof -
  let ?paths = "layer_paths run_deps stage_artifact build_deps"
  from assemble_result[of L run_deps stage_artifact build_deps self] assms
  show a: "fst (assemble L self run_deps stage_artifact build_deps) = Inl DirectoryExistsError"
    by blast
  from create_layers_result[OF only_layers_empty, of L ?paths self] assms
  have "fst (create_layers L self ?paths empty_sandbox) = Inl DirectoryExistsError"
    by (simp add: layer_digests_def)
  then have "assemble L self run_deps stage_artifact build_deps =
      (Inl DirectoryExistsError, snd (create_layers L self ?paths empty_sandbox))"
    by (cases "create_layers L self ?paths empty_sandbox")
       (simp add: assemble_def layer_paths_def and_then_def)
  with create_layers_leaves[OF only_layers_empty, of L self ?paths]
  show "sb_image (snd (assemble L self run_deps stage_artifact build_deps)) = None"
    and "layers_or_scratch (sb_layers (snd (assemble L self run_deps stage_artifact build_deps)))"
    by (simp_all add: empty_sandbox_def)
qed

lemma example_chain_layers:
  "stage_layers example_chain [ElemA, ElemB, ElemC] =
     [(ElemA, [ElemB, ElemC, ElemA]), (ElemB, []), (ElemC, [])]"
  "layer_paths example_chain example_artifact [ElemA, ElemB, ElemC] =
     [[(''b'', RegularFile example_stat [104, 105]), (''c'', RegularFile example_stat [104, 105]),
       (''a'', RegularFile example_stat [104, 105])], [], []]"
  by (simp_all add: layer_paths_def stage_layers_def example_chain_def stage_directory_def
      example_artifact_def)

lemma example_chain_load:
  "load_element example_time (example_node [] [''repo:tag'']) [ElemA, ElemB, ElemC] =
     Inr (example_element [] [(''repo'', ''tag'')])"
proof -
  have "fullmatch repository_syntax ''repo''" by code_simp
  then show ?thesis
    by (simp add: load_element_def example_configure_empty preflight_def example_element_def)
qed

text \<open>
  C6. The layer digests are collected in declared order and both lists are made from
  them, but only a build whose layers all differ gets that far. With the build
  dependencies \<open>ElemA\<close>, \<open>ElemB\<close>, \<open>ElemC\<close>, where the last two are runtime dependencies
  of the first, the first layer takes the files of all three and the second and third
  layer are both empty: the build passes \<^verbatim>\<open>preflight\<close> and ends in
  \<^verbatim>\<open>DirectoryExistsError\<close> when the third layer is renamed. No manifest, no image
  configuration and no image exist: \<^verbatim>\<open>layers\<close> holds layer directories and the
  scratch directory only.
\<close>

theorem equal_layers_end_the_build:
  "stage_layers example_chain [ElemA, ElemB, ElemC] =
     [(ElemA, [ElemB, ElemC, ElemA]), (ElemB, []), (ElemC, [])] \<and>
   fst (build_element example_time (example_node [] [''repo:tag'']) example_libs
          example_chain example_artifact [ElemA, ElemB, ElemC]) = Inl DirectoryExistsError \<and>
   sb_image (snd (build_element example_time (example_node [] [''repo:tag'']) example_libs
          example_chain example_artifact [ElemA, ElemB, ElemC])) = None \<and>
   read_file (sb_layers (snd (build_element example_time (example_node [] [''repo:tag'']) example_libs
          example_chain example_artifact [ElemA, ElemB, ElemC]))) [''manifest.json''] = None"
proof -
  let ?self = "example_element [] [(''repo'', ''tag'')]"
  let ?deps = "[ElemA, ElemB, ElemC]"
  have build: "build_element example_time (example_node [] [''repo:tag'']) example_libs
      example_chain example_artifact ?deps =
      assemble example_libs ?self example_chain example_artifact ?deps"
    by (simp add: build_element_def example_chain_load)
  have "\<not> distinct (layer_digests example_libs example_chain example_artifact ?deps)"
    by (simp add: layer_digests_def example_chain_layers(2))
  note E = assemble_equal_layers[OF this, of ?self]
  from E(3) have "map_of (sb_layers (snd (assemble example_libs ?self example_chain example_artifact ?deps)))
      ''manifest.json'' = None"
    unfolding layers_or_scratch_def
    by (cases "map_of (sb_layers (snd (assemble example_libs ?self example_chain example_artifact ?deps)))
      ''manifest.json''") auto
  then have "read_file (sb_layers (snd (assemble example_libs ?self example_chain example_artifact ?deps)))
      [''manifest.json''] = None"
    by simp
  with E(1,2) example_chain_layers(1) build show ?thesis by simp
qed

subsection \<open>Every state of the layer directory\<close>






































lemma create_image_config_scratch:
  assumes "only_layers (sb_layers sb)"
  shows "\<exists>l \<in> set (sb_trace (snd (create_image_config L self ds sb))).
           map_of l ''tmp'' = Some (File (Written (Json (image_config self ds)))) \<and>
           map_of l (image_digest L self ds @ ''.json'') = None"
proof -
  note tmp = only_layers_tmp[OF assms]
  have free: "map_of (sb_layers sb) (image_digest L self ds @ ''.json'') = None"
    unfolding image_digest_def by (rule only_layers_json[OF assms])
  have ne: "image_digest L self ds @ ''.json'' \<noteq> ''tmp''"
    by (simp add: image_digest_def)
  let ?l = "AList.update ''tmp'' (File (Written (Json (image_config self ds))))
      (AList.update ''tmp'' (File Partial) (sb_layers sb))"
  have "?l \<in> set (sb_trace (snd (create_image_config L self ds sb)))"
    using tmp free ne
    by (simp add: create_image_config_def and_then_def write_file_def save_json_def
        hash_digest_def move_atomic_def record_state_def Let_def update_conv' delete_conv'
        file_bytes_def image_digest_def[symmetric])
  moreover have "map_of ?l ''tmp'' = Some (File (Written (Json (image_config self ds))))"
    by (simp add: update_conv')
  moreover have "map_of ?l (image_digest L self ds @ ''.json'') = None"
    using free ne by (simp add: update_conv')
  ultimately show ?thesis by blast
qed







subsection \<open>Names and digests\<close>








end
